theory Spec2Isabelle
  imports Complex_Main
begin

section \<open>JavaScript strings\<close>

text \<open>
  A JavaScript string is a sequence of UTF-16 code units.  The model uses
  \<^typ>\<open>string\<close>: the code units in the range 0..255.  All characters the two
  parsers inspect (braces, quotes, backslash, angle brackets, digits, white
  space) lie in that range.
\<close>

text \<open>\<^verbatim>\<open>s.startsWith(p)\<close>, written with the prefix first.\<close>

fun startsWith :: "string \<Rightarrow> string \<Rightarrow> bool" where
  "startsWith [] s = True"
| "startsWith (p # ps) [] = False"
| "startsWith (p # ps) (c # cs) = (p = c \<and> startsWith ps cs)"

text \<open>\<^verbatim>\<open>s.indexOf(sep)\<close>; \<open>None\<close> stands for \<open>-1\<close>.\<close>

fun indexOf :: "string \<Rightarrow> string \<Rightarrow> nat option" where
  "indexOf [] sep = (if sep = [] then Some 0 else None)"
| "indexOf (c # cs) sep =
     (if startsWith sep (c # cs) then Some 0 else map_option Suc (indexOf cs sep))"

text \<open>\<^verbatim>\<open>s.includes(sep)\<close>.\<close>

definition str_includes :: "string \<Rightarrow> string \<Rightarrow> bool" where
  "str_includes s sep = (indexOf s sep \<noteq> None)"

text \<open>
  \<^verbatim>\<open>s.split(sep)\<close> for a string separator: the pieces between the
  non-overlapping occurrences of \<open>sep\<close>, found left to right; an empty separator
  splits into single code units.
\<close>

function split_from :: "string \<Rightarrow> string \<Rightarrow> string \<Rightarrow> string list" where
  "split_from sep acc s =
     (if sep \<noteq> [] \<and> startsWith sep s
      then rev acc # split_from sep [] (drop (length sep) s)
      else (case s of [] \<Rightarrow> [rev acc] | c # cs \<Rightarrow> split_from sep (c # acc) cs))"
  by pat_completeness auto
termination
proof (relation "measure (\<lambda>(sep, acc, s). length s)")
  show "wf (measure (\<lambda>(sep, acc, s). length s))" by simp
next
  fix sep acc :: string and s :: string
  assume "sep \<noteq> [] \<and> startsWith sep s"
  then have "s \<noteq> []" by (cases sep; cases s) auto
  with \<open>sep \<noteq> [] \<and> startsWith sep s\<close>
  show "((sep, [], drop (length sep) s), (sep, acc, s)) \<in> measure (\<lambda>(sep, acc, s). length s)"
    by (cases sep) auto
next
  fix sep acc :: string and s :: string and c cs
  assume "s = c # cs"
  then show "((sep, c # acc, cs), (sep, acc, s)) \<in> measure (\<lambda>(sep, acc, s). length s)"
    by simp
qed

declare split_from.simps [simp del]

definition split :: "string \<Rightarrow> string \<Rightarrow> string list" where
  "split s sep = (if sep = [] then map (\<lambda>c. [c]) s else split_from sep [] s)"

text \<open>\<^verbatim>\<open>s.substring(a, b)\<close> for \<open>a \<le> b\<close>, the only way it is called.\<close>

definition substring :: "string \<Rightarrow> nat \<Rightarrow> nat \<Rightarrow> string" where
  "substring s a b = take (b - a) (drop a s)"

text \<open>A string or \<^verbatim>\<open>undefined\<close> used as a condition.\<close>

definition truthy :: "string option \<Rightarrow> bool" where
  "truthy x = (case x of None \<Rightarrow> False | Some v \<Rightarrow> v \<noteq> [])"

section \<open>Error taxonomy\<close>

datatype CouldNotRetrieveTranscriptReason =
    TranscriptsDisabled
  | NoTranscriptFound
  | VideoUnavailable
  | VideoUnplayable
  | IpBlocked
  | RequestBlocked
  | TranslationUnavailable
  | TranslationLanguageUnavailable
  | FailedToCreateConsentCookie
  | YouTubeRequestFailed
  | InvalidVideoId
  | AgeRestricted
  | YouTubeDataUnparsable

text \<open>
  What extraction throws: the error class
  \<^verbatim>\<open>CouldNotRetrieveTranscript(videoId, reason)\<close> of the package, or the
  \<^verbatim>\<open>SyntaxError\<close> of the language, which \<^verbatim>\<open>new RegExp\<close> raises.
\<close>

datatype error =
    CouldNotRetrieveTranscript string CouldNotRetrieveTranscriptReason
  | SyntaxError

definition youTubeDataUnparsable :: "string \<Rightarrow> error" where
  "youTubeDataUnparsable videoId = CouldNotRetrieveTranscript videoId YouTubeDataUnparsable"

section \<open>JsVarParser: the character-by-character strategy\<close>

record scan_state =
  braceCount :: int
  inString :: bool
  escapeNext :: bool
  stringChar :: string

definition scan_init :: scan_state where
  "scan_init = \<lparr>braceCount = 0, inString = False, escapeNext = False, stringChar = []\<rparr>"

text \<open>
  One iteration of the brace-matching loop on the character \<open>c\<close>: the new state,
  and whether the loop breaks with \<open>endIndex\<close> set to the current index.
\<close>

definition scan_step :: "scan_state \<Rightarrow> char \<Rightarrow> scan_state \<times> bool" where
  "scan_step st c =
     (if escapeNext st then (st\<lparr>escapeNext := False\<rparr>, False)
      else if c = CHR 0x5C then (st\<lparr>escapeNext := True\<rparr>, False)
      else if \<not> inString st then
        (if c = CHR 0x22 \<or> c = CHR 0x27 then (st\<lparr>inString := True, stringChar := [c]\<rparr>, False)
         else if c = CHR ''{'' then (st\<lparr>braceCount := braceCount st + 1\<rparr>, False)
         else if c = CHR ''}'' then
           (st\<lparr>braceCount := braceCount st - 1\<rparr>, braceCount st - 1 = 0)
         else (st, False))
      else
        (if [c] = stringChar st then (st\<lparr>inString := False, stringChar := []\<rparr>, False)
         else (st, False)))"

text \<open>
  The loop \<^verbatim>\<open>for (let i = startIndex; i < afterVar.length; i++)\<close> over the
  characters from index \<open>i\<close> on; \<open>None\<close> is \<open>endIndex = -1\<close>.
\<close>

fun scan_loop :: "string \<Rightarrow> nat \<Rightarrow> scan_state \<Rightarrow> nat option" where
  "scan_loop [] i st = None"
| "scan_loop (c # cs) i st =
     (case scan_step st c of
        (st', True) \<Rightarrow> Some i
      | (st', False) \<Rightarrow> scan_loop cs (Suc i) st')"

text \<open>
  \<^verbatim>\<open>parseCharByChar(html, videoId)\<close>.  \<^verbatim>\<open>JSON.parse\<close> is a built-in of
  the language and is a parameter \<open>json\<close> here: \<open>None\<close> when it throws.
\<close>

definition parseCharByChar ::
  "(string \<Rightarrow> 'v option) \<Rightarrow> string \<Rightarrow> string \<Rightarrow> string \<Rightarrow> error + 'v" where
  "parseCharByChar json varName html videoId =
     (let varMarker = ''var '' @ varName;
          parts0 = split html varMarker;
          parts = (if length parts0 \<le> 1 then split html varName else parts0)
      in if length parts \<le> 1 then Inl (youTubeDataUnparsable videoId)
         else
           let afterVar = parts ! 1 in
           case indexOf afterVar ''{'' of
             None \<Rightarrow> Inl (youTubeDataUnparsable videoId)
           | Some openBraceIndex \<Rightarrow>
               let startIndex = openBraceIndex in
               (case scan_loop (drop startIndex afterVar) startIndex scan_init of
                  None \<Rightarrow> Inl (youTubeDataUnparsable videoId)
                | Some endIndex \<Rightarrow>
                    let jsonStr = substring afterVar startIndex (endIndex + 1) in
                    (case json jsonStr of
                       None \<Rightarrow> Inl (youTubeDataUnparsable videoId)
                     | Some v \<Rightarrow> Inr v)))"

section \<open>Regular expressions\<close>

text \<open>
  The regular expression literals of the source are built from
  single-character tests, concatenation and the greedy star.  \<open>rx_match r s k\<close> is the
  backtracking matcher of the language: it tries the ways \<open>r\<close> can match a
  prefix of \<open>s\<close> in priority order (greedy first) and returns the first
  result the continuation \<open>k\<close> accepts for the rest of the input.
\<close>

datatype rx = Eps | Sat "char \<Rightarrow> bool" | Cat rx rx | Star rx

text \<open>
  At most \<open>length s\<close> iterations of a star can each consume a character, so the
  iteration bound \<open>n = length s\<close> is never reached early; an iteration that
  consumes nothing is rejected, as the language does.
\<close>

fun rx_star ::
  "(string \<Rightarrow> (string \<Rightarrow> 'a option) \<Rightarrow> 'a option) \<Rightarrow> nat \<Rightarrow> string \<Rightarrow> (string \<Rightarrow> 'a option) \<Rightarrow> 'a option" where
  "rx_star m 0 s k = k s"
| "rx_star m (Suc n) s k =
     (case m s (\<lambda>s'. if length s' < length s then rx_star m n s' k else None) of
        Some r \<Rightarrow> Some r
      | None \<Rightarrow> k s)"

primrec rx_match :: "rx \<Rightarrow> string \<Rightarrow> (string \<Rightarrow> 'a option) \<Rightarrow> 'a option" where
  "rx_match Eps s k = k s"
| "rx_match (Sat p) s k = (case s of [] \<Rightarrow> None | c # cs \<Rightarrow> if p c then k cs else None)"
| "rx_match (Cat a b) s k = rx_match a s (\<lambda>s'. rx_match b s' k)"
| "rx_match (Star a) s k = rx_star (rx_match a) (length s) s k"

definition chr :: "char \<Rightarrow> rx" where
  "chr c = Sat (\<lambda>x. x = c)"

definition lit :: "string \<Rightarrow> rx" where
  "lit s = foldr (\<lambda>c r. Cat (chr c) r) s Eps"

definition plus :: "rx \<Rightarrow> rx" where
  "plus r = Cat r (Star r)"

text \<open>
  A pattern with one capturing group is written as the part before the group,
  the group and the part after it.  \<open>rx_exec\<close> matches at the start of \<open>s\<close>
  and returns the whole match, the text of group 1 and the rest of the input.
\<close>

type_synonym pattern = "rx \<times> rx \<times> rx"

definition rx_exec :: "pattern \<Rightarrow> string \<Rightarrow> (string \<times> string \<times> string) option" where
  "rx_exec p s =
     (case p of (pre, grp, post) \<Rightarrow>
        rx_match pre s (\<lambda>s1. rx_match grp s1 (\<lambda>s2. rx_match post s2 (\<lambda>s3.
          Some (take (length s - length s3) s, take (length s1 - length s2) s1, s3)))))"

text \<open>\<^verbatim>\<open>s.match(pattern)\<close> without the global flag: the leftmost match.\<close>

fun rx_search :: "pattern \<Rightarrow> string \<Rightarrow> (string \<times> string \<times> string) option" where
  "rx_search p [] = rx_exec p []"
| "rx_search p (c # cs) =
     (case rx_exec p (c # cs) of Some r \<Rightarrow> Some r | None \<Rightarrow> rx_search p cs)"

text \<open>
  \<^verbatim>\<open>s.replace(pattern, f)\<close> with the global flag: every match, left to right
  and non-overlapping, is replaced by \<open>f whole group1\<close>.  After an empty match the
  search moves on by one character.
\<close>

function replace_all :: "pattern \<Rightarrow> (string \<Rightarrow> string \<Rightarrow> string) \<Rightarrow> string \<Rightarrow> string" where
  "replace_all p f s =
     (case rx_exec p s of
        Some (whole, cap, rest) \<Rightarrow>
          if length rest < length s then f whole cap @ replace_all p f rest
          else (case s of [] \<Rightarrow> f whole cap | c # cs \<Rightarrow> f whole cap @ c # replace_all p f cs)
      | None \<Rightarrow> (case s of [] \<Rightarrow> [] | c # cs \<Rightarrow> c # replace_all p f cs))"
  by pat_completeness auto
termination
  by (relation "measure (\<lambda>(p, f, s). length s)") auto

declare replace_all.simps [simp del]

text \<open>\<^verbatim>\<open>(s.match(pattern) || []).length\<close> with the global flag.\<close>

function count_matches :: "pattern \<Rightarrow> string \<Rightarrow> nat" where
  "count_matches p s =
     (case rx_exec p s of
        Some (whole, cap, rest) \<Rightarrow>
          if length rest < length s then Suc (count_matches p rest)
          else (case s of [] \<Rightarrow> 1 | c # cs \<Rightarrow> Suc (count_matches p cs))
      | None \<Rightarrow> (case s of [] \<Rightarrow> 0 | c # cs \<Rightarrow> count_matches p cs))"
  by pat_completeness auto
termination
  by (relation "measure (\<lambda>(p, s). length s)") auto

declare count_matches.simps [simp del]

text \<open>
  The class \<^verbatim>\<open>\s\<close>: the white space and line terminator code units below
  256.  \<^verbatim>\<open>String.prototype.trim\<close> strips the same set.
\<close>

definition is_space :: "char \<Rightarrow> bool" where
  "is_space c = (c \<in> {CHR 0x09, CHR 0x0A, CHR 0x0B, CHR 0x0C, CHR 0x0D, CHR 0x20, CHR 0xA0})"

section \<open>JsVarParser: the regular-expression strategy\<close>

text \<open>
  The patterns of this strategy are built at run time from text, the variable
  name spliced in as it is, and compiled by the regular expression engine of
  the language.  The engine is a parameter \<open>RegExp\<close> of the model:
  \<open>RegExp source\<close> is \<^verbatim>\<open>new RegExp(source, 's')\<close>, \<open>None\<close> when the
  constructor throws its \<^verbatim>\<open>SyntaxError\<close>.  A pattern is the function
  \<^verbatim>\<open>s.match(pattern)\<close> of the text \<open>s\<close>: \<open>None\<close> is \<^verbatim>\<open>null\<close>, and a match is
  the array of the matched text and of the texts of the capturing groups, \<open>None\<close>
  for a group that took no part (\<^verbatim>\<open>undefined\<close>).
\<close>

type_synonym match_array = "string option list"

type_synonym regexp = "string \<Rightarrow> match_array option"

text \<open>\<^verbatim>\<open>match[i]\<close>: \<^verbatim>\<open>undefined\<close> past the end of the array.\<close>

definition match_group :: "match_array \<Rightarrow> nat \<Rightarrow> string option" where
  "match_group m i = (if i < length m then m ! i else None)"

text \<open>
  The three pattern texts, as the template literals of the source give them:
  \<^verbatim>\<open>var\s+NAME\s*=\s*({[^}]*(?:{[^}]*}[^}]*)*});\<close>,
  \<^verbatim>\<open>NAME\s*=\s*({[^}]*(?:{[^}]*}[^}]*)*});\<close> and
  \<^verbatim>\<open>"NAME"\s*:\s*({[^}]*(?:{[^}]*}[^}]*)*})\<close>.
\<close>

definition pattern_sources :: "string \<Rightarrow> string list" where
  "pattern_sources varName =
     [ ''var'' @ [CHR 0x5C] @ ''s+'' @ varName @ [CHR 0x5C] @ ''s*='' @ [CHR 0x5C]
         @ ''s*({[^}]*(?:{[^}]*}[^}]*)*});'',
       varName @ [CHR 0x5C] @ ''s*='' @ [CHR 0x5C] @ ''s*({[^}]*(?:{[^}]*}[^}]*)*});'',
       [CHR 0x22] @ varName @ [CHR 0x22] @ [CHR 0x5C] @ ''s*:'' @ [CHR 0x5C]
         @ ''s*({[^}]*(?:{[^}]*}[^}]*)*})'' ]"

text \<open>
  \<^verbatim>\<open>jsonStr.replace(/'([^'\\]*(\\.[^'\\]*)*)'/g, '"$1"')\<close>: a single-quoted
  run becomes double-quoted.  The dot does not match a line terminator.
\<close>

definition quote_pattern :: pattern where
  "quote_pattern =
     (let plain = Sat (\<lambda>c. c \<noteq> CHR 0x27 \<and> c \<noteq> CHR 0x5C);
          dot = Sat (\<lambda>c. c \<noteq> CHR 0x0A \<and> c \<noteq> CHR 0x0D)
      in (chr CHR 0x27,
          Cat (Star plain) (Star (Cat (chr CHR 0x5C) (Cat dot (Star plain)))),
          chr CHR 0x27))"

definition normalize_quotes :: "string \<Rightarrow> string" where
  "normalize_quotes jsonStr =
     replace_all quote_pattern (\<lambda>whole cap. [CHR 0x22] @ cap @ [CHR 0x22]) jsonStr"

text \<open>The loop \<^verbatim>\<open>for (const pattern of patterns)\<close> of \<^verbatim>\<open>parseWithRegex\<close>.\<close>

fun try_patterns ::
  "(string \<Rightarrow> 'v option) \<Rightarrow> regexp list \<Rightarrow> string \<Rightarrow> string \<Rightarrow> error + 'v" where
  "try_patterns json [] html videoId = Inl (youTubeDataUnparsable videoId)"
| "try_patterns json (pattern # ps) html videoId =
     (case pattern html of
        Some m \<Rightarrow>
          if truthy (match_group m 1) then
            (case json (normalize_quotes (the (match_group m 1))) of
               Some v \<Rightarrow> Inr v
             | None \<Rightarrow> try_patterns json ps html videoId)
          else try_patterns json ps html videoId
      | None \<Rightarrow> try_patterns json ps html videoId)"

text \<open>
  \<^verbatim>\<open>parseWithRegex\<close>.  The three patterns are constructed before the loop
  starts, so a pattern text the engine refuses ends the call with the engine's
  \<^verbatim>\<open>SyntaxError\<close>, whatever the other patterns would match.
\<close>

definition parseWithRegex ::
  "(string \<Rightarrow> regexp option) \<Rightarrow> (string \<Rightarrow> 'v option) \<Rightarrow> string \<Rightarrow> string \<Rightarrow> string \<Rightarrow> error + 'v" where
  "parseWithRegex RegExp json varName html videoId =
     (let patterns = map RegExp (pattern_sources varName)
      in if \<exists>pattern \<in> set patterns. Option.is_none pattern then Inl SyntaxError
         else try_patterns json (map the patterns) html videoId)"

text \<open>
  \<^verbatim>\<open>JsVarParser.parse\<close>: the scan first, the patterns when it throws.  What
  the patterns throw is not caught.
\<close>

definition JsVarParser_parse ::
  "(string \<Rightarrow> regexp option) \<Rightarrow> (string \<Rightarrow> 'v option) \<Rightarrow> string \<Rightarrow> string \<Rightarrow> string \<Rightarrow> error + 'v" where
  "JsVarParser_parse RegExp json varName html videoId =
     (case parseCharByChar json varName html videoId of
        Inr v \<Rightarrow> Inr v
      | Inl e \<Rightarrow> parseWithRegex RegExp json varName html videoId)"

section \<open>JSON.parse\<close>

text \<open>
  \<^verbatim>\<open>JSON.parse\<close> is parametric above.  For concrete runs this is the JSON
  grammar of the language standard.  A string value is a list of code units,
  so that a \<^verbatim>\<open>\uXXXX\<close> escape has a value; a number is the exact value of its
  decimal literal; an object keeps its keys in first-insertion order, a repeated
  key overwriting the earlier value.
\<close>

datatype json =
    JNull
  | JBool bool
  | JNumber rat
  | JString "nat list"
  | JArray "json list"
  | JObject "(nat list \<times> json) list"

definition json_ws :: "char \<Rightarrow> bool" where
  "json_ws c = (c \<in> {CHR 0x20, CHR 0x09, CHR 0x0A, CHR 0x0D})"

definition is_digit :: "char \<Rightarrow> bool" where
  "is_digit c = ((0x30 :: nat) \<le> of_char c \<and> of_char c \<le> (0x39 :: nat))"

definition digit_val :: "char \<Rightarrow> nat" where
  "digit_val c = of_char c - 0x30"

definition digits_val :: "string \<Rightarrow> nat" where
  "digits_val ds = foldl (\<lambda>n c. 10 * n + digit_val c) 0 ds"

definition hex_val :: "char \<Rightarrow> nat option" where
  "hex_val c =
     (if is_digit c then Some (digit_val c)
      else if (0x61 :: nat) \<le> of_char c \<and> of_char c \<le> (0x66 :: nat) then Some (of_char c - 0x61 + 10)
      else if (0x41 :: nat) \<le> of_char c \<and> of_char c \<le> (0x46 :: nat) then Some (of_char c - 0x41 + 10)
      else None)"

definition json_escape :: "char \<Rightarrow> nat option" where
  "json_escape e =
     (if e = CHR 0x22 then Some 0x22 else if e = CHR 0x5C then Some 0x5C
      else if e = CHR ''/'' then Some 0x2F else if e = CHR ''b'' then Some 0x08
      else if e = CHR ''f'' then Some 0x0C else if e = CHR ''n'' then Some 0x0A
      else if e = CHR ''r'' then Some 0x0D else if e = CHR ''t'' then Some 0x09
      else None)"

text \<open>The characters of a string after its opening quote, and the rest.\<close>

fun json_string :: "string \<Rightarrow> (nat list \<times> string) option" where
  "json_string [] = None"
| "json_string (c # cs) =
     (if c = CHR 0x22 then Some ([], cs)
      else if c = CHR 0x5C then
        (case cs of
           [] \<Rightarrow> None
         | e # es \<Rightarrow>
             if e = CHR ''u'' then
               (case es of
                  h1 # h2 # h3 # h4 # rest \<Rightarrow>
                    (case (hex_val h1, hex_val h2, hex_val h3, hex_val h4) of
                       (Some a, Some b, Some c, Some d) \<Rightarrow>
                         map_option (\<lambda>(x, r). ((((a * 16 + b) * 16 + c) * 16 + d) # x, r))
                           (json_string rest)
                     | _ \<Rightarrow> None)
                | _ \<Rightarrow> None)
             else
               (case json_escape e of
                  None \<Rightarrow> None
                | Some u \<Rightarrow> map_option (\<lambda>(x, r). (u # x, r)) (json_string es)))
      else if of_char c < (0x20 :: nat) then None
      else map_option (\<lambda>(x, r). (of_char c # x, r)) (json_string cs))"

text \<open>
  A number: \<^verbatim>\<open>-? (0 | [1-9][0-9]*) (. [0-9]+)? ([eE] [+-]? [0-9]+)?\<close>.
\<close>

definition json_number :: "string \<Rightarrow> (rat \<times> string) option" where
  "json_number s =
     (let neg = (s \<noteq> [] \<and> hd s = CHR ''-'');
          s1 = (if neg then tl s else s);
          ip = (if s1 \<noteq> [] \<and> hd s1 = CHR ''0'' then ''0'' else takeWhile is_digit s1);
          s2 = drop (length ip) s1
      in if ip = [] then None
         else
           let fp = (if s2 \<noteq> [] \<and> hd s2 = CHR ''.'' then takeWhile is_digit (tl s2) else []);
               has_frac = (s2 \<noteq> [] \<and> hd s2 = CHR ''.'');
               s3 = (if has_frac then drop (length fp) (tl s2) else s2)
           in if has_frac \<and> fp = [] then None
              else
                let has_exp = (s3 \<noteq> [] \<and> (hd s3 = CHR ''e'' \<or> hd s3 = CHR ''E''));
                    s4 = (if has_exp then tl s3 else s3);
                    eneg = (has_exp \<and> s4 \<noteq> [] \<and> hd s4 = CHR ''-'');
                    s5 = (if has_exp \<and> s4 \<noteq> [] \<and> (hd s4 = CHR ''-'' \<or> hd s4 = CHR ''+'') then tl s4 else s4);
                    ep = (if has_exp then takeWhile is_digit s5 else []);
                    s6 = drop (length ep) s5
                in if has_exp \<and> ep = [] then None
                   else
                     let m = of_nat (digits_val (ip @ fp)) / (10 ^ length fp) :: rat;
                         v = (if eneg then m / (10 ^ digits_val ep) else m * (10 ^ digits_val ep))
                     in Some (if neg then - v else v, s6))"

definition obj_put :: "(nat list \<times> json) list \<Rightarrow> nat list \<Rightarrow> json \<Rightarrow> (nat list \<times> json) list" where
  "obj_put acc k v =
     (if k \<in> fst ` set acc then map (\<lambda>(k', v'). if k' = k then (k', v) else (k', v')) acc
      else acc @ [(k, v)])"

text \<open>
  The recursive descent.  The first argument bounds the number of nested calls;
  each call consumes a character before it recurses, so the length of the input
  is enough.
\<close>

fun json_value :: "nat \<Rightarrow> string \<Rightarrow> (json \<times> string) option"
  and json_members :: "nat \<Rightarrow> (nat list \<times> json) list \<Rightarrow> string \<Rightarrow> (json \<times> string) option"
  and json_elements :: "nat \<Rightarrow> json list \<Rightarrow> string \<Rightarrow> (json \<times> string) option" where
  "json_value 0 s = None"
| "json_value (Suc n) s =
     (case dropWhile json_ws s of
        [] \<Rightarrow> None
      | c # cs \<Rightarrow>
          if c = CHR ''{'' then
            (case dropWhile json_ws cs of
               [] \<Rightarrow> None
             | d # ds \<Rightarrow> if d = CHR ''}'' then Some (JObject [], ds) else json_members n [] cs)
          else if c = CHR ''['' then
            (case dropWhile json_ws cs of
               [] \<Rightarrow> None
             | d # ds \<Rightarrow> if d = CHR '']'' then Some (JArray [], ds) else json_elements n [] cs)
          else if c = CHR 0x22 then map_option (\<lambda>(x, r). (JString x, r)) (json_string cs)
          else if startsWith ''true'' (c # cs) then Some (JBool True, drop 4 (c # cs))
          else if startsWith ''false'' (c # cs) then Some (JBool False, drop 5 (c # cs))
          else if startsWith ''null'' (c # cs) then Some (JNull, drop 4 (c # cs))
          else map_option (\<lambda>(x, r). (JNumber x, r)) (json_number (c # cs)))"
| "json_members 0 acc s = None"
| "json_members (Suc n) acc s =
     (case dropWhile json_ws s of
        [] \<Rightarrow> None
      | q # cs \<Rightarrow>
          if q \<noteq> CHR 0x22 then None
          else
            (case json_string cs of
               None \<Rightarrow> None
             | Some (k, r) \<Rightarrow>
                 (case dropWhile json_ws r of
                    [] \<Rightarrow> None
                  | colon # r2 \<Rightarrow>
                      if colon \<noteq> CHR '':'' then None
                      else
                        (case json_value n r2 of
                           None \<Rightarrow> None
                         | Some (v, r3) \<Rightarrow>
                             (case dropWhile json_ws r3 of
                                [] \<Rightarrow> None
                              | d # r4 \<Rightarrow>
                                  if d = CHR '','' then json_members n (obj_put acc k v) r4
                                  else if d = CHR ''}'' then Some (JObject (obj_put acc k v), r4)
                                  else None)))))"
| "json_elements 0 acc s = None"
| "json_elements (Suc n) acc s =
     (case json_value n s of
        None \<Rightarrow> None
      | Some (v, r) \<Rightarrow>
          (case dropWhile json_ws r of
             [] \<Rightarrow> None
           | d # r2 \<Rightarrow>
               if d = CHR '','' then json_elements n (acc @ [v]) r2
               else if d = CHR '']'' then Some (JArray (acc @ [v]), r2)
               else None))"

definition JSON_parse :: "string \<Rightarrow> json option" where
  "JSON_parse s =
     (case json_value (Suc (length s)) s of
        None \<Rightarrow> None
      | Some (v, r) \<Rightarrow> if dropWhile json_ws r = [] then Some v else None)"

section \<open>Numbers\<close>

text \<open>
  A number of the language, as far as the caption decoder needs it: a finite
  value is the exact value of the decimal literal read (the language rounds it
  to the nearest double).
\<close>

datatype jsnumber = NaN | Finite rat | PosInfinity | NegInfinity

definition isNaN :: "jsnumber \<Rightarrow> bool" where
  "isNaN x = (x = NaN)"

text \<open>
  \<^verbatim>\<open>parseFloat\<close>: leading white space is skipped, then the longest prefix
  that is a decimal literal (optional sign; \<^verbatim>\<open>Infinity\<close>, or digits with an
  optional fraction and exponent) is read; what follows is ignored; \<open>NaN\<close> when
  there is no such prefix.
\<close>

definition parseFloat :: "string \<Rightarrow> jsnumber" where
  "parseFloat s =
     (let t = dropWhile is_space s;
          neg = (t \<noteq> [] \<and> hd t = CHR ''-'');
          u = (if t \<noteq> [] \<and> (hd t = CHR ''-'' \<or> hd t = CHR ''+'') then tl t else t)
      in if startsWith ''Infinity'' u then (if neg then NegInfinity else PosInfinity)
         else
           let ip = takeWhile is_digit u;
               r1 = drop (length ip) u;
               has_dot = (r1 \<noteq> [] \<and> hd r1 = CHR ''.'');
               fp = (if has_dot then takeWhile is_digit (tl r1) else []);
               r2 = (if has_dot then drop (length fp) (tl r1) else r1)
           in if ip = [] \<and> fp = [] then NaN
              else
                let has_e = (r2 \<noteq> [] \<and> (hd r2 = CHR ''e'' \<or> hd r2 = CHR ''E''));
                    r3 = (if has_e then tl r2 else r2);
                    eneg = (has_e \<and> r3 \<noteq> [] \<and> hd r3 = CHR ''-'');
                    r4 = (if has_e \<and> r3 \<noteq> [] \<and> (hd r3 = CHR ''-'' \<or> hd r3 = CHR ''+'') then tl r3 else r3);
                    ep = (if has_e then takeWhile is_digit r4 else []);
                    m = of_nat (digits_val (ip @ fp)) / (10 ^ length fp) :: rat;
                    v = (if eneg then m / (10 ^ digits_val ep) else m * (10 ^ digits_val ep))
                in Finite (if neg then - v else v))"

section \<open>Documents and the markup library\<close>

text \<open>
  The caption decoder works on the document tree of the markup library
  (cheerio): text nodes and elements with a tag, attributes and children.
\<close>

datatype node = TextNode string | Element string "(string \<times> string) list" "node list"

text \<open>
  Parsing text into a tree and writing a tree back as text are the library's
  own: they are the parameters of the decoder.
  \<^item> \<open>load_xml\<close>: \<^verbatim>\<open>load(s, {xmlMode: true})\<close>, the children of the root;
  \<^item> \<open>load_html\<close>: \<^verbatim>\<open>load(s, {xmlMode: false})\<close>, the children of the root;
  \<^item> \<open>parse_content\<close>: the nodes a string stands for when it is given to
    \<^verbatim>\<open>replaceWith\<close> in such a document;
  \<^item> \<open>render_xml\<close>, \<open>render_html\<close>: the markup of a list of nodes, as
    \<^verbatim>\<open>.html()\<close> writes the children of an element in each mode.
\<close>

record cheerio =
  load_xml :: "string \<Rightarrow> node list"
  load_html :: "string \<Rightarrow> node list"
  parse_content :: "string \<Rightarrow> node list"
  render_xml :: "node list \<Rightarrow> string"
  render_html :: "node list \<Rightarrow> string"

text \<open>The elements of a forest in document order, as a selector visits them.\<close>

fun elements :: "node \<Rightarrow> node list" where
  "elements (TextNode t) = []"
| "elements (Element tag attrs children) =
     Element tag attrs children # concat (map elements children)"

definition tag_of :: "node \<Rightarrow> string" where
  "tag_of n = (case n of TextNode t \<Rightarrow> [] | Element tag attrs children \<Rightarrow> tag)"

definition children_of :: "node \<Rightarrow> node list" where
  "children_of n = (case n of TextNode t \<Rightarrow> [] | Element tag attrs children \<Rightarrow> children)"

text \<open>\<^verbatim>\<open>$(tag)\<close>: the elements with that tag.\<close>

definition select :: "string \<Rightarrow> node list \<Rightarrow> node list" where
  "select tag doc = filter (\<lambda>n. tag_of n = tag) (concat (map elements doc))"

text \<open>\<^verbatim>\<open>.attr(name)\<close>: \<open>None\<close> is \<^verbatim>\<open>undefined\<close>.\<close>

definition attr :: "string \<Rightarrow> node \<Rightarrow> string option" where
  "attr name n = (case n of TextNode t \<Rightarrow> None | Element tag attrs children \<Rightarrow> map_of attrs name)"

text \<open>\<^verbatim>\<open>.text()\<close>: the text of all descendants.\<close>

fun node_text :: "node \<Rightarrow> string" where
  "node_text (TextNode t) = t"
| "node_text (Element tag attrs children) = concat (map node_text children)"

definition forest_text :: "node list \<Rightarrow> string" where
  "forest_text ns = concat (map node_text ns)"

section \<open>TranscriptParser\<close>

record FetchedTranscriptSnippet =
  "text" :: string
  start :: jsnumber
  duration :: jsnumber

record TranscriptParser =
  preserveFormatting :: bool
  linkFormat :: string

definition FORMATTING_TAGS :: "string list" where
  "FORMATTING_TAGS =
     [''strong'', ''em'', ''b'', ''i'', ''mark'', ''small'', ''del'', ''ins'', ''sub'', ''sup'',
      ''span'', ''a'']"

text \<open>The constructor, with its default arguments written out by the caller.\<close>

definition new_TranscriptParser :: "bool \<Rightarrow> string \<Rightarrow> TranscriptParser" where
  "new_TranscriptParser pf lf = \<lparr>preserveFormatting = pf, linkFormat = lf\<rparr>"

definition default_linkFormat :: string where
  "default_linkFormat = ''{text} ({url})''"

text \<open>\<^verbatim>\<open>withConfig\<close>: \<open>Inl\<close> is the \<^verbatim>\<open>Error\<close> thrown, with its message.\<close>

definition withConfig :: "bool \<Rightarrow> string \<Rightarrow> string + TranscriptParser" where
  "withConfig pf lf =
     (if \<not> str_includes lf ''{text}'' \<or> \<not> str_includes lf ''{url}''
      then Inl ''Link format must contain {text} and {url} placeholders''
      else Inr (new_TranscriptParser pf lf))"

text \<open>
  \<^verbatim>\<open>s.replace(pat, repl)\<close> with a string pattern: the first occurrence only,
  and in the replacement \<^verbatim>\<open>$$\<close> stands for a dollar sign, \<^verbatim>\<open>$&\<close> for the
  matched text, \<^verbatim>\<open>$`\<close> and \<^verbatim>\<open>$'\<close> for the text before and after the match.
\<close>

fun expand_replacement :: "string \<Rightarrow> string \<Rightarrow> string \<Rightarrow> string \<Rightarrow> string" where
  "expand_replacement matched preceding following [] = []"
| "expand_replacement matched preceding following [c] = [c]"
| "expand_replacement matched preceding following (c # d # r) =
     (if c = CHR ''$'' then
        (if d = CHR ''$'' then CHR ''$'' # expand_replacement matched preceding following r
         else if d = CHR ''&'' then matched @ expand_replacement matched preceding following r
         else if d = CHR 0x60 then preceding @ expand_replacement matched preceding following r
         else if d = CHR 0x27 then following @ expand_replacement matched preceding following r
         else c # expand_replacement matched preceding following (d # r))
      else c # expand_replacement matched preceding following (d # r))"

definition replace :: "string \<Rightarrow> string \<Rightarrow> string \<Rightarrow> string" where
  "replace s pat repl =
     (case indexOf s pat of
        None \<Rightarrow> s
      | Some i \<Rightarrow>
          let preceding = take i s; following = drop (i + length pat) s
          in preceding @ expand_replacement pat preceding following repl @ following)"

text \<open>
  The string an anchor is replaced with, in both rendering modes: the link
  format filled in when the anchor has an \<^verbatim>\<open>href\<close> and a text, its text
  otherwise.
\<close>

definition link_replacement :: "TranscriptParser \<Rightarrow> node \<Rightarrow> string" where
  "link_replacement self element =
     (let href = attr ''href'' element;
          linkText = node_text element
      in if truthy href \<and> linkText \<noteq> [] then
           replace (replace (linkFormat self) ''{text}'' linkText) ''{url}'' (the href)
         else node_text element)"

text \<open>
  \<^verbatim>\<open>$('a').each(...)\<close> with \<^verbatim>\<open>replaceWith\<close>.  The anchors are selected
  before the loop and visited in document order.  An anchor is replaced, in the
  children of its parent, by the nodes its replacement string stands for; an
  anchor inside it is then no longer part of the document, and replacing it
  later leaves the document as it is.
\<close>

fun replace_links :: "cheerio \<Rightarrow> TranscriptParser \<Rightarrow> node \<Rightarrow> node list" where
  "replace_links L self (TextNode t) = [TextNode t]"
| "replace_links L self (Element tag attrs children) =
     (if tag = ''a'' then parse_content L (link_replacement self (Element tag attrs children))
      else [Element tag attrs (concat (map (replace_links L self) children))])"

text \<open>\<^verbatim>\<open>htmlToPlainText\<close>.\<close>

definition htmlToPlainText :: "cheerio \<Rightarrow> TranscriptParser \<Rightarrow> string \<Rightarrow> string" where
  "htmlToPlainText L self html =
     forest_text (concat (map (replace_links L self) (load_html L html)))"

text \<open>
  \<^verbatim>\<open>$('*').not('div, ' + FORMATTING_TAGS.join(', ')).each(...)\<close>: every element
  whose tag is neither \<^verbatim>\<open>div\<close> nor a formatting tag is replaced by the nodes its
  inner markup (or, when that is empty, its text) stands for.  As for the
  anchors, the selection is made before the loop, and an element inside a
  replaced one is no longer part of the document.
\<close>

definition kept_tag :: "string \<Rightarrow> bool" where
  "kept_tag tag = (tag \<in> set (''div'' # FORMATTING_TAGS))"

fun strip_tags :: "cheerio \<Rightarrow> node \<Rightarrow> node list" where
  "strip_tags L (TextNode t) = [TextNode t]"
| "strip_tags L (Element tag attrs children) =
     (if kept_tag tag then [Element tag attrs (concat (map (strip_tags L) children))]
      else parse_content L
             (if render_html L children \<noteq> [] then render_html L children
              else node_text (Element tag attrs children)))"

text \<open>\<^verbatim>\<open>$('div').html() || ''\<close>: the inner markup of the first \<^verbatim>\<open>div\<close>.\<close>

definition first_div_html :: "cheerio \<Rightarrow> node list \<Rightarrow> string option" where
  "first_div_html L doc =
     (case select ''div'' doc of [] \<Rightarrow> None | el # rest \<Rightarrow> Some (render_html L (children_of el)))"

text \<open>
  \<^verbatim>\<open>processWithFormatting\<close>.  The filter runs over the whole document the
  library built for \<^verbatim>\<open><div>...</div>\<close>, its \<^verbatim>\<open>html\<close> element included when
  the library adds one.
\<close>

definition processWithFormatting :: "cheerio \<Rightarrow> TranscriptParser \<Rightarrow> string \<Rightarrow> string" where
  "processWithFormatting L self txt =
     (let doc = load_html L (''<div>'' @ txt @ ''</div>'');
          doc1 = concat (map (replace_links L self) doc);
          doc2 = concat (map (strip_tags L) doc1)
      in case first_div_html L doc2 of None \<Rightarrow> [] | Some h \<Rightarrow> h)"

text \<open>\<^verbatim>\<open>decodeHtmlEntities\<close>, with its table of entities.\<close>

definition entities :: "(string \<times> string) list" where
  "entities =
     [(''&amp;'', ''&''), (''&lt;'', ''<''), (''&gt;'', ''>''), (''&quot;'', [CHR 0x22]),
      (''&#39;'', [CHR 0x27]), (''&apos;'', [CHR 0x27])]"

definition is_word :: "char \<Rightarrow> bool" where
  "is_word c =
     (c \<in> set ''abcdefghijklmnopqrstuvwxyzABCDEFGHIJKLMNOPQRSTUVWXYZ0123456789_'')"

definition entity_pattern :: pattern where
  "entity_pattern =
     (Eps,
      Cat (chr CHR ''&'') (Cat (plus (Sat (\<lambda>c. c = CHR ''#'' \<or> is_word c))) (chr CHR '';'')),
      Eps)"

definition decodeHtmlEntities :: "cheerio \<Rightarrow> string \<Rightarrow> string" where
  "decodeHtmlEntities L txt =
     (let doc = load_html L (''<div>'' @ txt @ ''</div>'');
          decodedHtml = (case first_div_html L doc of
                           None \<Rightarrow> txt
                         | Some h \<Rightarrow> if h \<noteq> [] then h else txt)
      in if decodedHtml \<noteq> txt then decodedHtml
         else replace_all entity_pattern
                (\<lambda>entity cap. case map_of entities entity of None \<Rightarrow> entity | Some r \<Rightarrow> r) txt)"

text \<open>\<^verbatim>\<open>text.replace(/\s+/g, ' ').trim()\<close>.\<close>

definition trim :: "string \<Rightarrow> string" where
  "trim s = rev (dropWhile is_space (rev (dropWhile is_space s)))"

definition collapse :: "string \<Rightarrow> string" where
  "collapse s = replace_all (Eps, plus (Sat is_space), Eps) (\<lambda>whole cap. '' '') s"

definition clean_whitespace :: "string \<Rightarrow> string" where
  "clean_whitespace s = trim (collapse s)"

text \<open>
  The text of a segment, as the body of \<^verbatim>\<open>$('text').each(...)\<close> computes
  it from \<^verbatim>\<open>$element.html() || ''\<close> on: entities decoded, markup rendered
  in the mode of the parser, white space cleaned up.
\<close>

definition segment_text :: "cheerio \<Rightarrow> TranscriptParser \<Rightarrow> node \<Rightarrow> string" where
  "segment_text L self element =
     (let txt0 = render_xml L (children_of element);
          txt1 = decodeHtmlEntities L txt0;
          txt2 = (if preserveFormatting self then processWithFormatting L self txt1
                  else htmlToPlainText L self txt1)
      in clean_whitespace txt2)"

text \<open>
  The body of \<^verbatim>\<open>$('text').each(...)\<close> for one element: the snippets it
  pushes, none when it returns early.
\<close>

definition segment_snippets ::
  "cheerio \<Rightarrow> TranscriptParser \<Rightarrow> node \<Rightarrow> FetchedTranscriptSnippet list" where
  "segment_snippets L self element =
     (let startStr = attr ''start'' element;
          durStr = attr ''dur'' element
      in if \<not> truthy startStr \<or> \<not> truthy durStr then []
         else
           let start = parseFloat (the startStr);
               duration = parseFloat (the durStr)
           in if isNaN start \<or> isNaN duration then []
              else
                let txt = segment_text L self element
                in if txt \<noteq> [] then [\<lparr>text = txt, start = start, duration = duration\<rparr>]
                   else [])"

text \<open>The two counting expressions of the structural check.\<close>

definition open_tag_pattern :: pattern where
  "open_tag_pattern = (Eps, Cat (lit ''<text'') (Cat (Star (Sat (\<lambda>c. c \<noteq> CHR ''>''))) (chr CHR ''>'')), Eps)"

definition close_tag_pattern :: pattern where
  "close_tag_pattern = (Eps, lit ''</text>'', Eps)"

text \<open>
  \<^verbatim>\<open>TranscriptParser.parse\<close>: \<open>Inl\<close> is the \<^verbatim>\<open>Error\<close> thrown by the
  \<^verbatim>\<open>catch\<close> block, with its message.
\<close>

definition failed :: "string \<Rightarrow> string + 'a" where
  "failed message = Inl (''Failed to parse transcript XML: '' @ message)"

definition TranscriptParser_parse ::
  "cheerio \<Rightarrow> TranscriptParser \<Rightarrow> string \<Rightarrow> string + FetchedTranscriptSnippet list" where
  "TranscriptParser_parse L self rawData =
     (if \<not> str_includes rawData ''<transcript'' \<or> \<not> str_includes rawData ''</transcript>''
      then failed ''Invalid transcript XML structure''
      else
        let openTags = count_matches open_tag_pattern rawData;
            closeTags = count_matches close_tag_pattern rawData
        in if openTags \<noteq> closeTags then failed ''Malformed XML: mismatched text tags''
           else
             let doc = load_xml L rawData
             in if length (select ''transcript'' doc) = 0
                then failed ''No transcript element found in XML''
                else Inr (concat (map (segment_snippets L self) (select ''text'' doc))))"

section \<open>A reference markup library\<close>

text \<open>
  For concrete runs of the decoder: an implementation of the library interface
  for simple markup (tags with quoted or bare attribute values free of
  \<^verbatim>\<open>>\<close>, text, the six entities of the table above; declarations and comments
  are skipped).  As the library does, an HTML document gets its \<^verbatim>\<open>html\<close>,
  \<^verbatim>\<open>head\<close> and \<^verbatim>\<open>body\<close> elements, and markup parsed as content drops such
  tags; the XML mode honours \<^verbatim>\<open>/>\<close>, the HTML mode knows the void elements.
\<close>

datatype token = StartTag string "(string \<times> string) list" bool | EndTag string | Chars string

definition decode_entities :: "string \<Rightarrow> string" where
  "decode_entities s =
     replace_all entity_pattern
       (\<lambda>entity cap. case map_of entities entity of None \<Rightarrow> entity | Some r \<Rightarrow> r) s"

fun tag_attrs :: "nat \<Rightarrow> string \<Rightarrow> (string \<times> string) list" where
  "tag_attrs 0 s = []"
| "tag_attrs (Suc n) s =
     (let s1 = dropWhile (\<lambda>c. is_space c \<or> c = CHR ''/'') s
      in if s1 = [] then []
         else
           let name = takeWhile (\<lambda>c. \<not> is_space c \<and> c \<noteq> CHR ''='' \<and> c \<noteq> CHR ''/'') s1;
               s2 = dropWhile is_space (drop (length name) s1)
           in if name = [] then tag_attrs n (tl s1)
              else if s2 \<noteq> [] \<and> hd s2 = CHR ''='' then
                (let s3 = dropWhile is_space (tl s2)
                 in if s3 \<noteq> [] \<and> (hd s3 = CHR 0x22 \<or> hd s3 = CHR 0x27) then
                      (name, decode_entities (takeWhile (\<lambda>c. c \<noteq> hd s3) (tl s3)))
                        # tag_attrs n (drop 1 (dropWhile (\<lambda>c. c \<noteq> hd s3) (tl s3)))
                    else
                      (name, decode_entities (takeWhile (\<lambda>c. \<not> is_space c) s3))
                        # tag_attrs n (dropWhile (\<lambda>c. \<not> is_space c) s3))
              else (name, []) # tag_attrs n s2)"

definition is_alpha :: "char \<Rightarrow> bool" where
  "is_alpha c = (c \<in> set ''abcdefghijklmnopqrstuvwxyzABCDEFGHIJKLMNOPQRSTUVWXYZ'')"

definition start_tag :: "string \<Rightarrow> token" where
  "start_tag inner =
     (let name = takeWhile (\<lambda>c. \<not> is_space c \<and> c \<noteq> CHR ''/'') inner
      in StartTag name (tag_attrs (length inner) (drop (length name) inner))
           (inner \<noteq> [] \<and> last inner = CHR ''/''))"

fun tokenize :: "nat \<Rightarrow> string \<Rightarrow> token list" where
  "tokenize 0 s = []"
| "tokenize (Suc n) [] = []"
| "tokenize (Suc n) (c # cs) =
     (let remaining = drop 1 (dropWhile (\<lambda>x. x \<noteq> CHR ''>'') cs)
      in if c = CHR ''<'' \<and> cs \<noteq> [] \<and> hd cs = CHR ''/'' then
           EndTag (takeWhile (\<lambda>x. x \<noteq> CHR ''>'' \<and> \<not> is_space x) (tl cs)) # tokenize n remaining
         else if c = CHR ''<'' \<and> cs \<noteq> [] \<and> (hd cs = CHR ''?'' \<or> hd cs = CHR ''!'') then
           tokenize n remaining
         else if c = CHR ''<'' \<and> cs \<noteq> [] \<and> is_alpha (hd cs) then
           start_tag (takeWhile (\<lambda>x. x \<noteq> CHR ''>'') cs) # tokenize n remaining
         else
           Chars (decode_entities (c # takeWhile (\<lambda>x. x \<noteq> CHR ''<'') cs))
             # tokenize n (dropWhile (\<lambda>x. x \<noteq> CHR ''<'') cs))"

type_synonym open_element = "string \<times> (string \<times> string) list \<times> node list"

fun close_all :: "open_element list \<Rightarrow> node list \<Rightarrow> node list" where
  "close_all [] cur = cur"
| "close_all ((tag, attrs, siblings) # st) cur =
     close_all st (Element tag attrs (rev cur) # siblings)"

fun close_to :: "string \<Rightarrow> open_element list \<Rightarrow> node list \<Rightarrow> open_element list \<times> node list" where
  "close_to t [] cur = ([], cur)"
| "close_to t ((tag, attrs, siblings) # st) cur =
     (if tag = t then (st, Element tag attrs (rev cur) # siblings)
      else close_to t st (Element tag attrs (rev cur) # siblings))"

definition void_tags :: "string list" where
  "void_tags =
     [''area'', ''base'', ''br'', ''col'', ''embed'', ''hr'', ''img'', ''input'', ''link'',
      ''meta'', ''source'', ''track'', ''wbr'']"

fun build :: "bool \<Rightarrow> token list \<Rightarrow> open_element list \<Rightarrow> node list \<Rightarrow> node list" where
  "build xml [] st cur = rev (close_all st cur)"
| "build xml (Chars t # ts) st cur = build xml ts st (TextNode t # cur)"
| "build xml (StartTag t a sc # ts) st cur =
     (if (xml \<and> sc) \<or> (\<not> xml \<and> t \<in> set void_tags) then build xml ts st (Element t a [] # cur)
      else build xml ts ((t, a, cur) # st) [])"
| "build xml (EndTag t # ts) st cur =
     (if t \<in> set (map fst st) then
        (case close_to t st cur of (st', cur') \<Rightarrow> build xml ts st' cur')
      else build xml ts st cur)"

definition structural :: "token \<Rightarrow> bool" where
  "structural tok =
     (case tok of
        StartTag t a sc \<Rightarrow> t \<in> {''html'', ''head'', ''body''}
      | EndTag t \<Rightarrow> t \<in> {''html'', ''head'', ''body''}
      | Chars t \<Rightarrow> False)"

definition lib_parse_content :: "string \<Rightarrow> node list" where
  "lib_parse_content s = build False (filter (\<lambda>tok. \<not> structural tok) (tokenize (length s) s)) [] []"

definition lib_load_html :: "string \<Rightarrow> node list" where
  "lib_load_html s =
     [Element ''html'' [] [Element ''head'' [] [], Element ''body'' [] (lib_parse_content s)]]"

definition lib_load_xml :: "string \<Rightarrow> node list" where
  "lib_load_xml s = build True (tokenize (length s) s) [] []"

definition escape_html_text :: "string \<Rightarrow> string" where
  "escape_html_text t =
     concat (map (\<lambda>c. if c = CHR ''&'' then ''&amp;'' else if c = CHR ''<'' then ''&lt;''
                       else if c = CHR ''>'' then ''&gt;'' else if c = CHR 0xA0 then ''&nbsp;''
                       else [c]) t)"

definition escape_html_attr :: "string \<Rightarrow> string" where
  "escape_html_attr t =
     concat (map (\<lambda>c. if c = CHR ''&'' then ''&amp;'' else if c = CHR 0x22 then ''&quot;''
                       else if c = CHR 0xA0 then ''&nbsp;'' else [c]) t)"

definition escape_xml :: "string \<Rightarrow> string" where
  "escape_xml t =
     concat (map (\<lambda>c. if c = CHR ''&'' then ''&amp;'' else if c = CHR ''<'' then ''&lt;''
                       else if c = CHR ''>'' then ''&gt;'' else if c = CHR 0x22 then ''&quot;''
                       else if c = CHR 0x27 then ''&apos;'' else [c]) t)"

fun lib_render_html_node :: "node \<Rightarrow> string" where
  "lib_render_html_node (TextNode t) = escape_html_text t"
| "lib_render_html_node (Element tag attrs children) =
     ''<'' @ tag @ concat (map (\<lambda>(k, v). '' '' @ k @ ''='' @ [CHR 0x22] @ escape_html_attr v @ [CHR 0x22]) attrs)
       @ ''>''
       @ (if tag \<in> set void_tags then []
          else concat (map lib_render_html_node children) @ ''</'' @ tag @ ''>'')"

fun lib_render_xml_node :: "node \<Rightarrow> string" where
  "lib_render_xml_node (TextNode t) = escape_xml t"
| "lib_render_xml_node (Element tag attrs children) =
     ''<'' @ tag @ concat (map (\<lambda>(k, v). '' '' @ k @ ''='' @ [CHR 0x22] @ escape_xml v @ [CHR 0x22]) attrs)
       @ (if children = [] then ''/>''
          else ''>'' @ concat (map lib_render_xml_node children) @ ''</'' @ tag @ ''>'')"

definition reference_library :: cheerio where
  "reference_library =
     \<lparr>load_xml = lib_load_xml,
      load_html = lib_load_html,
      parse_content = lib_parse_content,
      render_xml = (\<lambda>ns. concat (map lib_render_xml_node ns)),
      render_html = (\<lambda>ns. concat (map lib_render_html_node ns))\<rparr>"

section \<open>The RegExp constructor\<close>

text \<open>
  \<^verbatim>\<open>RegExp\<close> is parametric above.  For concrete runs this is the pattern
  language of the language standard, its Annex B included, for a pattern with
  the flag \<^verbatim>\<open>s\<close> and no other: alternatives, greedy and lazy quantifiers,
  capturing, named and non-capturing groups, look-ahead and look-behind, back
  references, character classes and the escapes.  Code units are below 256 as
  everywhere in the model, so an escape that denotes a larger one matches
  nothing; a group name is made of letters, digits, \<^verbatim>\<open>$\<close> and \<^verbatim>\<open>_\<close>, and no
  two groups share a name.
\<close>

datatype regex =
    Nothing
  | OneOf "char \<Rightarrow> bool"
  | Then regex regex
  | Or regex regex
  | Repeat regex nat "nat option" bool
  | Capture nat regex
  | Look bool bool regex
  | BackReference nat
  | InputStart
  | InputEnd
  | WordBoundary bool

text \<open>
  \<open>Repeat r min max greedy\<close> is a quantified atom, \<open>max = None\<close> for no upper
  bound; \<open>Capture n r\<close> is the \<open>n\<close>-th capturing group; \<open>Look ahead negated r\<close> is
  a look-ahead or look-behind; \<open>WordBoundary negated\<close> is \<^verbatim>\<open>\b\<close> or \<^verbatim>\<open>\B\<close>.
\<close>

primrec groups_in :: "regex \<Rightarrow> nat list" where
  "groups_in Nothing = []"
| "groups_in (OneOf p) = []"
| "groups_in (Then a b) = groups_in a @ groups_in b"
| "groups_in (Or a b) = groups_in a @ groups_in b"
| "groups_in (Repeat a mn mx greedy) = groups_in a"
| "groups_in (Capture n a) = n # groups_in a"
| "groups_in (Look ahead negated a) = groups_in a"
| "groups_in (BackReference n) = []"
| "groups_in InputStart = []"
| "groups_in InputEnd = []"
| "groups_in (WordBoundary negated) = []"

subsection \<open>Matching\<close>

text \<open>
  A state is a position in the input and the captures: for each group the start
  and end of the text it matched last, if any.  \<open>regex_matches r forward s i
  caps\<close> lists the states in which a match of \<open>r\<close> that starts in the state
  \<open>(i, caps)\<close> can end, in the order in which the backtracking matcher of the
  standard tries them; what that matcher returns is the first state of the
  list for the whole pattern.
\<close>

type_synonym captures = "(nat \<times> nat) option list"

type_synonym state = "nat \<times> captures"

text \<open>
  \<^verbatim>\<open>RepeatMatcher\<close>: the groups of the atom are cleared before each round, and
  a round that is not required and matches the empty text is refused.  The
  first argument bounds the number of rounds; a required round lowers the
  minimum and any other round moves on in the input, so that the minimum and
  the length of the input together are never used up.
\<close>

fun repeat_matches ::
  "nat \<Rightarrow> (nat \<Rightarrow> captures \<Rightarrow> state list) \<Rightarrow> nat list \<Rightarrow> nat \<Rightarrow> nat option \<Rightarrow> bool
     \<Rightarrow> nat \<Rightarrow> captures \<Rightarrow> state list" where
  "repeat_matches 0 m groups mn mx greedy i caps = []"
| "repeat_matches (Suc n) m groups mn mx greedy i caps =
     (if mx = Some 0 then [(i, caps)]
      else
        let rounds =
              concat (map (\<lambda>(j, c).
                             if mn = 0 \<and> j = i then []
                             else repeat_matches n m groups (mn - 1) (map_option (\<lambda>x. x - 1) mx)
                                    greedy j c)
                        (m i (foldr (\<lambda>g c. c[g := None]) groups caps)))
        in if mn \<noteq> 0 then rounds
           else if greedy then rounds @ [(i, caps)]
           else (i, caps) # rounds)"

text \<open>Inside a look-behind the matcher runs backwards.\<close>

primrec regex_matches :: "regex \<Rightarrow> bool \<Rightarrow> string \<Rightarrow> nat \<Rightarrow> captures \<Rightarrow> state list" where
  "regex_matches Nothing forward s i caps = [(i, caps)]"
| "regex_matches (OneOf p) forward s i caps =
     (if forward then (if i < length s \<and> p (s ! i) then [(Suc i, caps)] else [])
      else (if 0 < i \<and> p (s ! (i - 1)) then [(i - 1, caps)] else []))"
| "regex_matches (Then a b) forward s i caps =
     (if forward
      then concat (map (\<lambda>(j, c). regex_matches b forward s j c) (regex_matches a forward s i caps))
      else concat (map (\<lambda>(j, c). regex_matches a forward s j c) (regex_matches b forward s i caps)))"
| "regex_matches (Or a b) forward s i caps =
     regex_matches a forward s i caps @ regex_matches b forward s i caps"
| "regex_matches (Repeat a mn mx greedy) forward s i caps =
     repeat_matches (mn + length s + 2) (regex_matches a forward s) (groups_in a) mn mx greedy
       i caps"
| "regex_matches (Capture n a) forward s i caps =
     map (\<lambda>(j, c). (j, c[n := Some (if forward then (i, j) else (j, i))]))
       (regex_matches a forward s i caps)"
| "regex_matches (Look ahead negated a) forward s i caps =
     (case regex_matches a ahead s i caps of
        [] \<Rightarrow> if negated then [(i, caps)] else []
      | (j, c) # others \<Rightarrow> if negated then [] else [(i, c)])"
| "regex_matches (BackReference n) forward s i caps =
     (case caps ! n of
        None \<Rightarrow> [(i, caps)]
      | Some (a, b) \<Rightarrow>
          if forward then
            (if i + (b - a) \<le> length s \<and> take (b - a) (drop i s) = take (b - a) (drop a s)
             then [(i + (b - a), caps)] else [])
          else
            (if b - a \<le> i \<and> take (b - a) (drop (i - (b - a)) s) = take (b - a) (drop a s)
             then [(i - (b - a), caps)] else []))"
| "regex_matches InputStart forward s i caps = (if i = 0 then [(i, caps)] else [])"
| "regex_matches InputEnd forward s i caps = (if i = length s then [(i, caps)] else [])"
| "regex_matches (WordBoundary negated) forward s i caps =
     (let a = (0 < i \<and> is_word (s ! (i - 1)));
          b = (i < length s \<and> is_word (s ! i))
      in if (a \<noteq> b) \<noteq> negated then [(i, caps)] else [])"

text \<open>
  A match that starts at position \<open>i\<close>: the array of the matched text and of the
  texts of the \<open>n\<close> groups.
\<close>

definition regex_exec :: "regex \<Rightarrow> nat \<Rightarrow> string \<Rightarrow> nat \<Rightarrow> match_array option" where
  "regex_exec r n s i =
     (case regex_matches r True s i (replicate (Suc n) None) of
        [] \<Rightarrow> None
      | (j, c) # others \<Rightarrow>
          Some (map (map_option (\<lambda>(a, b). take (b - a) (drop a s))) (c[0 := Some (i, j)])))"

text \<open>
  \<^verbatim>\<open>s.match(pattern)\<close> without the global flag: the match at the leftmost
  position that has one; \<open>regex_search r n s k\<close> tries the last \<open>k + 1\<close> positions.
\<close>

fun regex_search :: "regex \<Rightarrow> nat \<Rightarrow> string \<Rightarrow> nat \<Rightarrow> match_array option" where
  "regex_search r n s 0 = regex_exec r n s (length s)"
| "regex_search r n s (Suc k) =
     (case regex_exec r n s (length s - Suc k) of
        Some m \<Rightarrow> Some m
      | None \<Rightarrow> regex_search r n s k)"

subsection \<open>Pattern text\<close>

text \<open>
  The capturing groups of a pattern text in the order of their opening
  parentheses, each with its name if it has one.  An escaped character and the
  inside of a class open no group.
\<close>

fun group_names :: "string \<Rightarrow> bool \<Rightarrow> string option list" where
  "group_names [] in_class = []"
| "group_names (c # cs) in_class =
     (if c = CHR 0x5C then (case cs of [] \<Rightarrow> [] | e # es \<Rightarrow> group_names es in_class)
      else if in_class then group_names cs (c \<noteq> CHR '']'')
      else if c = CHR ''['' then group_names cs True
      else if c = CHR ''('' then
        (if startsWith ''?<'' cs \<and> \<not> startsWith ''?<='' cs \<and> \<not> startsWith ''?<!'' cs
         then Some (takeWhile (\<lambda>x. x \<noteq> CHR ''>'') (drop 2 cs)) # group_names cs False
         else if startsWith ''?'' cs then group_names cs False
         else None # group_names cs False)
      else group_names cs False)"

definition name_start :: "char \<Rightarrow> bool" where
  "name_start c = (is_alpha c \<or> c = CHR ''$'' \<or> c = CHR ''_'')"

definition group_name_ok :: "string \<Rightarrow> bool" where
  "group_name_ok name =
     (name \<noteq> [] \<and> name_start (hd name) \<and> (\<forall>c \<in> set name. name_start c \<or> is_digit c))"

text \<open>The number of the group with a name.\<close>

fun group_index :: "string \<Rightarrow> string option list \<Rightarrow> nat option" where
  "group_index name [] = None"
| "group_index name (g # gs) =
     (if g = Some name then Some 1 else map_option Suc (group_index name gs))"

definition octal_digit :: "char \<Rightarrow> bool" where
  "octal_digit c = ((0x30 :: nat) \<le> of_char c \<and> of_char c \<le> (0x37 :: nat))"

text \<open>
  A legacy octal escape: up to three octal digits, the third only after a first
  digit below 4.  The argument starts with an octal digit.
\<close>

definition legacy_octal :: "string \<Rightarrow> nat \<times> string" where
  "legacy_octal s =
     (let d1 = hd s; r1 = tl s
      in if r1 \<noteq> [] \<and> octal_digit (hd r1) then
           (if digit_val d1 \<le> 3 \<and> tl r1 \<noteq> [] \<and> octal_digit (hd (tl r1))
            then (64 * digit_val d1 + 8 * digit_val (hd r1) + digit_val (hd (tl r1)), tl (tl r1))
            else (8 * digit_val d1 + digit_val (hd r1), tl r1))
         else (digit_val d1, r1))"

text \<open>
  The code unit an escape stands for, and the text after it, for the character
  \<open>e\<close> after the backslash and the text \<open>es\<close> after \<open>e\<close>.  An escape that is
  not complete stands for its letter, and \<^verbatim>\<open>\c\<close> without a control letter
  stands for the backslash, the \<^verbatim>\<open>c\<close> being read again.
\<close>

definition hex_escape :: "nat \<Rightarrow> char \<Rightarrow> string \<Rightarrow> nat \<times> string" where
  "hex_escape n e es =
     (if length es \<ge> n \<and> (\<forall>h \<in> set (take n es). hex_val h \<noteq> None)
      then (foldl (\<lambda>v h. 16 * v + the (hex_val h)) 0 (take n es), drop n es)
      else (of_char e, es))"

definition character_escape :: "bool \<Rightarrow> char \<Rightarrow> string \<Rightarrow> nat \<times> string" where
  "character_escape in_class e es =
     (if e = CHR ''f'' then (0x0C, es)
      else if e = CHR ''n'' then (0x0A, es)
      else if e = CHR ''r'' then (0x0D, es)
      else if e = CHR ''t'' then (0x09, es)
      else if e = CHR ''v'' then (0x0B, es)
      else if e = CHR ''c'' then
        (if es \<noteq> [] \<and> (is_alpha (hd es) \<or> (in_class \<and> (is_digit (hd es) \<or> hd es = CHR ''_'')))
         then (of_char (hd es) mod 32, tl es)
         else (0x5C, e # es))
      else if octal_digit e then legacy_octal (e # es)
      else if e = CHR ''x'' then hex_escape 2 e es
      else if e = CHR ''u'' then hex_escape 4 e es
      else (of_char e, es))"

text \<open>
  The class escapes \<^verbatim>\<open>\d\<close>, \<^verbatim>\<open>\D\<close>, \<^verbatim>\<open>\s\<close>, \<^verbatim>\<open>\S\<close>, \<^verbatim>\<open>\w\<close> and
  \<^verbatim>\<open>\W\<close>.
\<close>

definition class_letter :: "char \<Rightarrow> bool" where
  "class_letter e = (e \<in> set ''dDsSwW'')"

definition class_set :: "char \<Rightarrow> char \<Rightarrow> bool" where
  "class_set e c =
     (if e = CHR ''d'' then is_digit c else if e = CHR ''D'' then \<not> is_digit c
      else if e = CHR ''s'' then is_space c else if e = CHR ''S'' then \<not> is_space c
      else if e = CHR ''w'' then is_word c else \<not> is_word c)"

text \<open>
  An escape outside a class: a class escape, a back reference (a number up to
  the number of groups, or \<^verbatim>\<open>\k<name>\<close> in a pattern with named groups), or
  a character.
\<close>

definition atom_escape :: "string option list \<Rightarrow> char \<Rightarrow> string \<Rightarrow> (regex \<times> string) option" where
  "atom_escape names e es =
     (let ds = takeWhile is_digit (e # es)
      in if class_letter e then Some (OneOf (class_set e), es)
         else if is_digit e \<and> e \<noteq> CHR ''0'' \<and> digits_val ds \<le> length names
         then Some (BackReference (digits_val ds), drop (length ds) (e # es))
         else if e = CHR ''k'' \<and> (\<exists>g \<in> set names. g \<noteq> None) then
           (if startsWith ''<'' es \<and> CHR ''>'' \<in> set es then
              (case group_index (takeWhile (\<lambda>x. x \<noteq> CHR ''>'') (tl es)) names of
                 None \<Rightarrow> None
               | Some g \<Rightarrow> Some (BackReference g, drop 1 (dropWhile (\<lambda>x. x \<noteq> CHR ''>'') es)))
            else None)
         else
           (case character_escape False e es of
              (v, r) \<Rightarrow> Some (OneOf (\<lambda>c. of_char c = v), r)))"

text \<open>
  A member of a class: one code unit, or the set of a class escape.
\<close>

datatype class_member = Single nat | Several "char \<Rightarrow> bool"

definition in_member :: "class_member \<Rightarrow> char \<Rightarrow> bool" where
  "in_member a c = (case a of Single v \<Rightarrow> of_char c = v | Several p \<Rightarrow> p c)"

definition class_atom :: "string option list \<Rightarrow> string \<Rightarrow> (class_member \<times> string) option" where
  "class_atom names s =
     (case s of
        [] \<Rightarrow> None
      | c # cs \<Rightarrow>
          if c \<noteq> CHR 0x5C then Some (Single (of_char c), cs)
          else
            (case cs of
               [] \<Rightarrow> None
             | e # es \<Rightarrow>
                 if e = CHR ''b'' then Some (Single 0x08, es)
                 else if class_letter e then Some (Several (class_set e), es)
                 else if e = CHR ''k'' \<and> (\<exists>g \<in> set names. g \<noteq> None) then None
                 else (case character_escape True e es of (v, r) \<Rightarrow> Some (Single v, r))))"

text \<open>
  The members of a class up to its closing bracket.  Two single members around
  a hyphen are a range, which must be in order; with a class escape on one
  side the hyphen is a member.  The first argument bounds the number of members.
\<close>

fun class_ranges ::
  "nat \<Rightarrow> string option list \<Rightarrow> (char \<Rightarrow> bool) \<Rightarrow> string \<Rightarrow> ((char \<Rightarrow> bool) \<times> string) option" where
  "class_ranges 0 names acc s = None"
| "class_ranges (Suc n) names acc s =
     (if s = [] then None
      else if hd s = CHR '']'' then Some (acc, tl s)
      else
        (case class_atom names s of
           None \<Rightarrow> None
         | Some (a, r) \<Rightarrow>
             if startsWith ''-'' r \<and> \<not> startsWith ''-]'' r then
               (case class_atom names (tl r) of
                  None \<Rightarrow> None
                | Some (b, r2) \<Rightarrow>
                    (case (a, b) of
                       (Single x, Single y) \<Rightarrow>
                         if y < x then None
                         else class_ranges n names
                                (\<lambda>c. acc c \<or> (x \<le> of_char c \<and> of_char c \<le> y)) r2
                     | _ \<Rightarrow>
                         class_ranges n names
                           (\<lambda>c. acc c \<or> in_member a c \<or> in_member b c \<or> c = CHR ''-'') r2))
             else class_ranges n names (\<lambda>c. acc c \<or> in_member a c) r))"

definition character_class :: "string option list \<Rightarrow> string \<Rightarrow> ((char \<Rightarrow> bool) \<times> string) option" where
  "character_class names s =
     (let negated = startsWith ''^'' s;
          body = (if negated then tl s else s)
      in case class_ranges (Suc (length body)) names (\<lambda>c. False) body of
           None \<Rightarrow> None
         | Some (p, r) \<Rightarrow> Some (if negated then (\<lambda>c. \<not> p c) else p, r))"

text \<open>
  The bounds of a quantifier in braces, for the text after the opening brace:
  \<^verbatim>\<open>{n}\<close>, \<^verbatim>\<open>{n,}\<close> or \<^verbatim>\<open>{n,m}\<close>.  Any other text after a brace is no
  quantifier, and the brace is a character.
\<close>

definition braces :: "string \<Rightarrow> ((nat \<times> nat option) \<times> string) option" where
  "braces s =
     (let a = takeWhile is_digit s; r = drop (length a) s
      in if a = [] then None
         else if startsWith ''}'' r then Some ((digits_val a, Some (digits_val a)), tl r)
         else if startsWith '',}'' r then Some ((digits_val a, None), drop 2 r)
         else if startsWith '','' r then
           (let b = takeWhile is_digit (tl r); r2 = drop (length b) (tl r)
            in if b \<noteq> [] \<and> startsWith ''}'' r2
               then Some ((digits_val a, Some (digits_val b)), tl r2) else None)
         else None)"

text \<open>
  An atom with the quantifier that follows it, if any; \<open>None\<close> when the bounds
  are out of order.
\<close>

definition quantified :: "regex \<Rightarrow> string \<Rightarrow> nat \<Rightarrow> (regex \<times> string \<times> nat) option" where
  "quantified atom s g =
     (let q = (case s of
                 [] \<Rightarrow> None
               | c # cs \<Rightarrow>
                   if c = CHR ''*'' then Some ((0, None), cs)
                   else if c = CHR ''+'' then Some ((1, None), cs)
                   else if c = CHR ''?'' then Some ((0, Some 1), cs)
                   else if c = CHR ''{'' then braces cs
                   else None)
      in case q of
           None \<Rightarrow> Some (atom, s, g)
         | Some ((mn, mx), r) \<Rightarrow>
             if (case mx of None \<Rightarrow> False | Some m \<Rightarrow> m < mn) then None
             else if startsWith ''?'' r then Some (Repeat atom mn mx False, tl r, g)
             else Some (Repeat atom mn mx True, r, g))"

text \<open>
  A term that is not a group, for a text that starts with neither \<^verbatim>\<open>(\<close>,
  \<^verbatim>\<open>)\<close> nor \<^verbatim>\<open>|\<close>.  A quantifier with nothing to repeat is refused.
\<close>

definition simple_term :: "string option list \<Rightarrow> string \<Rightarrow> nat \<Rightarrow> (regex \<times> string \<times> nat) option" where
  "simple_term names s g =
     (case s of
        [] \<Rightarrow> None
      | c # cs \<Rightarrow>
          if c = CHR ''^'' then Some (InputStart, cs, g)
          else if c = CHR ''$'' then Some (InputEnd, cs, g)
          else if c = CHR 0x5C then
            (case cs of
               [] \<Rightarrow> None
             | e # es \<Rightarrow>
                 if e = CHR ''b'' then Some (WordBoundary False, es, g)
                 else if e = CHR ''B'' then Some (WordBoundary True, es, g)
                 else
                   (case atom_escape names e es of
                      None \<Rightarrow> None
                    | Some (a, r) \<Rightarrow> quantified a r g))
          else if c = CHR ''['' then
            (case character_class names cs of
               None \<Rightarrow> None
             | Some (p, r) \<Rightarrow> quantified (OneOf p) r g)
          else if c = CHR ''.'' then quantified (OneOf (\<lambda>x. True)) cs g
          else if c = CHR ''*'' \<or> c = CHR ''+'' \<or> c = CHR ''?'' then None
          else if c = CHR ''{'' \<and> braces cs \<noteq> None then None
          else quantified (OneOf (\<lambda>x. x = c)) cs g)"

text \<open>
  The kind of a group and the text of its body, for the text after the opening
  parenthesis.
\<close>

datatype group_kind = Capturing | NonCapturing | LookAhead bool | LookBehind bool

definition group_opening :: "string \<Rightarrow> (group_kind \<times> string) option" where
  "group_opening s =
     (if startsWith ''?:'' s then Some (NonCapturing, drop 2 s)
      else if startsWith ''?='' s then Some (LookAhead False, drop 2 s)
      else if startsWith ''?!'' s then Some (LookAhead True, drop 2 s)
      else if startsWith ''?<='' s then Some (LookBehind False, drop 3 s)
      else if startsWith ''?<!'' s then Some (LookBehind True, drop 3 s)
      else if startsWith ''?<'' s then
        (let name = takeWhile (\<lambda>x. x \<noteq> CHR ''>'') (drop 2 s)
         in if CHR ''>'' \<in> set (drop 2 s) \<and> group_name_ok name
            then Some (Capturing, drop (length name + 3) s) else None)
      else if startsWith ''?'' s then None
      else Some (Capturing, s))"

text \<open>
  A group of kind \<open>kind\<close> with the body \<open>r\<close>, opened when \<open>g\<close> groups had been
  opened before it.  A look-behind takes no quantifier.
\<close>

definition group_term ::
  "group_kind \<Rightarrow> nat \<Rightarrow> regex \<Rightarrow> string \<Rightarrow> nat \<Rightarrow> (regex \<times> string \<times> nat) option" where
  "group_term kind g r s g' =
     (case kind of
        Capturing \<Rightarrow> quantified (Capture (Suc g) r) s g'
      | NonCapturing \<Rightarrow> quantified r s g'
      | LookAhead negated \<Rightarrow> quantified (Look True negated r) s g'
      | LookBehind negated \<Rightarrow> Some (Look False negated r, s, g'))"

text \<open>
  The recursive descent: a disjunction is a list of alternatives, an
  alternative a list of terms.  \<open>g\<close> counts the capturing groups opened so far.
  The first argument bounds the number of nested calls: every term, every
  \<^verbatim>\<open>|\<close> and every parenthesis takes a character, and at most three calls
  are nested for each.
\<close>

fun parse_disjunction ::
    "nat \<Rightarrow> string option list \<Rightarrow> string \<Rightarrow> nat \<Rightarrow> (regex \<times> string \<times> nat) option"
  and parse_alternative ::
    "nat \<Rightarrow> string option list \<Rightarrow> regex \<Rightarrow> string \<Rightarrow> nat \<Rightarrow> (regex \<times> string \<times> nat) option"
  and parse_term ::
    "nat \<Rightarrow> string option list \<Rightarrow> string \<Rightarrow> nat \<Rightarrow> (regex \<times> string \<times> nat) option" where
  "parse_disjunction 0 names s g = None"
| "parse_disjunction (Suc n) names s g =
     (case parse_alternative n names Nothing s g of
        None \<Rightarrow> None
      | Some (a, r, g1) \<Rightarrow>
          if startsWith ''|'' r then
            (case parse_disjunction n names (tl r) g1 of
               None \<Rightarrow> None
             | Some (b, r2, g2) \<Rightarrow> Some (Or a b, r2, g2))
          else Some (a, r, g1))"
| "parse_alternative 0 names acc s g = None"
| "parse_alternative (Suc n) names acc s g =
     (if s = [] \<or> startsWith ''|'' s \<or> startsWith '')'' s then Some (acc, s, g)
      else
        (case parse_term n names s g of
           None \<Rightarrow> None
         | Some (t, r, g1) \<Rightarrow> parse_alternative n names (Then acc t) r g1))"
| "parse_term 0 names s g = None"
| "parse_term (Suc n) names s g =
     (if startsWith ''('' s then
        (case group_opening (tl s) of
           None \<Rightarrow> None
         | Some (kind, body) \<Rightarrow>
             (case parse_disjunction n names body (if kind = Capturing then Suc g else g) of
                None \<Rightarrow> None
              | Some (r, rest, g1) \<Rightarrow>
                  if startsWith '')'' rest then group_term kind g r (tl rest) g1 else None))
      else simple_term names s g)"

text \<open>
  The constructor: the pattern text is refused when a group name is not a name
  or is used twice, when the descent fails, or when it stops before the end of
  the text, at a closing parenthesis that closes nothing.
\<close>

definition compile :: "string \<Rightarrow> (regex \<times> nat) option" where
  "compile source =
     (let names = group_names source False
      in if \<not> distinct (filter (\<lambda>g. g \<noteq> None) names) then None
         else
           (case parse_disjunction (3 * length source + 3) names source 0 of
              None \<Rightarrow> None
            | Some (r, rest, g) \<Rightarrow> if rest = [] then Some (r, length names) else None))"

definition reference_RegExp :: "string \<Rightarrow> regexp option" where
  "reference_RegExp source =
     (case compile source of
        None \<Rightarrow> None
      | Some (r, n) \<Rightarrow> Some (\<lambda>s. regex_search r n s (length s)))"

section \<open>Notions used to state the properties\<close>

text \<open>
  The text between the quotes of a string literal delimited by \<open>q\<close>: it has no
  \<open>q\<close> of its own, except after a backslash, and every backslash is followed by
  a character.
\<close>

fun literal_body :: "char \<Rightarrow> string \<Rightarrow> bool" where
  "literal_body q [] = True"
| "literal_body q (c # cs) =
     (if c = CHR 0x5C then (case cs of [] \<Rightarrow> False | x # r \<Rightarrow> literal_body q r)
      else c \<noteq> q \<and> literal_body q cs)"

text \<open>
  The first steps of \<^verbatim>\<open>parseCharByChar\<close> on their own: \<open>after_var\<close> is
  \<^verbatim>\<open>parts[1]\<close>, the text the scan works on (\<open>None\<close> when the marker is not
  found), and \<open>scan_object\<close> is \<^verbatim>\<open>jsonStr\<close>, the substring handed to
  \<^verbatim>\<open>JSON.parse\<close> (\<open>None\<close> when one of the earlier steps throws).
\<close>

definition after_var :: "string \<Rightarrow> string \<Rightarrow> string option" where
  "after_var varName html =
     (let varMarker = ''var '' @ varName;
          parts0 = split html varMarker;
          parts = (if length parts0 \<le> 1 then split html varName else parts0)
      in if length parts \<le> 1 then None else Some (parts ! 1))"

definition scan_object :: "string \<Rightarrow> string \<Rightarrow> string option" where
  "scan_object varName html =
     (case after_var varName html of
        None \<Rightarrow> None
      | Some afterVar \<Rightarrow>
          (case indexOf afterVar ''{'' of
             None \<Rightarrow> None
           | Some startIndex \<Rightarrow>
               (case scan_loop (drop startIndex afterVar) startIndex scan_init of
                  None \<Rightarrow> None
                | Some endIndex \<Rightarrow> Some (substring afterVar startIndex (endIndex + 1)))))"

text \<open>
  What a pattern of \<^verbatim>\<open>parseWithRegex\<close> yields on a text: the value of the
  first group of its match, \<open>None\<close> when there is no match, the group is empty
  or took no part, or its text, quotes normalised, is not valid JSON.
\<close>

definition pattern_value :: "(string \<Rightarrow> 'v option) \<Rightarrow> string \<Rightarrow> regexp \<Rightarrow> 'v option" where
  "pattern_value json html pattern =
     (case pattern html of
        None \<Rightarrow> None
      | Some m \<Rightarrow>
          if truthy (match_group m 1) then json (normalize_quotes (the (match_group m 1)))
          else None)"

text \<open>Two white space characters next to each other.\<close>

definition ws_run :: "string \<Rightarrow> bool" where
  "ws_run t = (\<exists>a c d b. t = a @ c # d # b \<and> is_space c \<and> is_space d)"


section \<open>Facts about strings and splitting\<close>

lemma startsWith_iff: "startsWith p s \<longleftrightarrow> (\<exists>r. s = p @ r)"
  by (induction p s rule: startsWith.induct) auto

lemma indexOf_None_iff: "indexOf s sep = None \<longleftrightarrow> (\<forall>a b. s \<noteq> a @ sep @ b)"
proof (induction s)
  case Nil
  then show ?case by auto
next
  case (Cons c cs)
  show ?case
  proof (cases "startsWith sep (c # cs)")
    case True
    then obtain r where "c # cs = sep @ r" by (auto simp: startsWith_iff)
    then have "c # cs = [] @ sep @ r" by simp
    with True show ?thesis by (metis indexOf.simps(2) option.distinct(1))
  next
    case False
    have "(\<forall>a b. c # cs \<noteq> a @ sep @ b) \<longleftrightarrow> (\<forall>a b. cs \<noteq> a @ sep @ b)"
    proof
      assume h: "\<forall>a b. c # cs \<noteq> a @ sep @ b"
      show "\<forall>a b. cs \<noteq> a @ sep @ b"
      proof (intro allI notI)
        fix a b assume "cs = a @ sep @ b"
        then have "c # cs = (c # a) @ sep @ b" by simp
        with h show False by blast
      qed
    next
      assume h: "\<forall>a b. cs \<noteq> a @ sep @ b"
      show "\<forall>a b. c # cs \<noteq> a @ sep @ b"
      proof (intro allI notI)
        fix a b assume e: "c # cs = a @ sep @ b"
        show False
        proof (cases a)
          case Nil
          with e have "startsWith sep (c # cs)" by (auto simp: startsWith_iff)
          with False show False by simp
        next
          case (Cons x a')
          with e have "cs = a' @ sep @ b" by simp
          with h show False by blast
        qed
      qed
    qed
    with False Cons show ?thesis by simp
  qed
qed

lemma indexOf_Some_take:
  "indexOf s sep = Some i \<Longrightarrow> s = take i s @ sep @ drop (i + length sep) s"
proof (induction s arbitrary: i)
  case Nil
  then show ?case by (auto split: if_splits)
next
  case (Cons c cs)
  show ?case
  proof (cases "startsWith sep (c # cs)")
    case True
    with Cons.prems have "i = 0" by simp
    moreover from True obtain r where "c # cs = sep @ r" by (auto simp: startsWith_iff)
    ultimately show ?thesis by simp
  next
    case False
    with Cons.prems obtain j where j: "indexOf cs sep = Some j" "i = Suc j" by auto
    from Cons.IH[OF j(1)] j(2) show ?thesis by simp
  qed
qed

lemma indexOf_take_None:
  "indexOf s sep = Some i \<Longrightarrow> sep \<noteq> [] \<Longrightarrow> indexOf (take i s) sep = None"
proof (induction s arbitrary: i)
  case Nil
  then show ?case by (auto split: if_splits)
next
  case (Cons c cs)
  show ?case
  proof (cases "startsWith sep (c # cs)")
    case True
    with Cons.prems show ?thesis by simp
  next
    case False
    with Cons.prems obtain j where j: "indexOf cs sep = Some j" "i = Suc j" by auto
    have "\<not> startsWith sep (c # take j cs)"
    proof
      assume "startsWith sep (c # take j cs)"
      then obtain r where "c # take j cs = sep @ r" by (auto simp: startsWith_iff)
      then have "c # cs = sep @ (r @ drop j cs)"
        by (metis append_Cons append_assoc append_take_drop_id)
      with False show False by (auto simp: startsWith_iff)
    qed
    with Cons.IH[OF j(1) Cons.prems(2)] j(2) show ?thesis by simp
  qed
qed

lemma indexOf_infix_None:
  "indexOf (a @ s @ b) sep = None \<Longrightarrow> indexOf s sep = None"
  unfolding indexOf_None_iff
  by (metis append.assoc)

lemma indexOf_short: "length s < length sep \<Longrightarrow> indexOf s sep = None"
  unfolding indexOf_None_iff by auto

lemma indexOf_char_Some:
  "indexOf s [c] = Some k \<Longrightarrow> k < length s \<and> s ! k = c"
proof -
  assume h: "indexOf s [c] = Some k"
  from indexOf_Some_take[OF h] have e: "s = take k s @ [c] @ drop (k + 1) s" by simp
  have k: "k < length s"
  proof (rule ccontr)
    assume "\<not> k < length s"
    then have "take k s = s" by simp
    with e have "s = s @ [c] @ drop (k + 1) s" by simp
    then show False by simp
  qed
  have "s ! k = (take k s @ [c] @ drop (k + 1) s) ! k" using e by simp
  also have "\<dots> = c" using k by (simp add: nth_append)
  finally show ?thesis using k by simp
qed


lemma split_from_eq:
  "sep \<noteq> [] \<Longrightarrow> split_from sep acc s =
     (case indexOf s sep of
        None \<Rightarrow> [rev acc @ s]
      | Some i \<Rightarrow> (rev acc @ take i s) # split_from sep [] (drop (i + length sep) s))"
proof (induction s arbitrary: acc)
  case Nil
  then show ?case by (subst split_from.simps) (cases sep; simp)
next
  case (Cons c cs)
  show ?case
  proof (cases "startsWith sep (c # cs)")
    case True
    with Cons.prems show ?thesis by (subst split_from.simps) simp
  next
    case False
    have "split_from sep acc (c # cs) = split_from sep (c # acc) cs"
      using False by (subst split_from.simps) simp
    also have "\<dots> = (case indexOf cs sep of
        None \<Rightarrow> [rev (c # acc) @ cs]
      | Some i \<Rightarrow> (rev (c # acc) @ take i cs) # split_from sep [] (drop (i + length sep) cs))"
      using Cons.IH[OF Cons.prems] .
    finally show ?thesis using False by (simp split: option.splits)
  qed
qed

lemma split_None: "sep \<noteq> [] \<Longrightarrow> indexOf s sep = None \<Longrightarrow> split s sep = [s]"
  by (simp add: split_def split_from_eq)

lemma split_Some:
  "sep \<noteq> [] \<Longrightarrow> indexOf s sep = Some i \<Longrightarrow>
   split s sep = take i s # split_from sep [] (drop (i + length sep) s)"
  by (simp add: split_def split_from_eq)

lemma split_from_hd:
  "sep \<noteq> [] \<Longrightarrow> \<exists>rest. split_from sep [] s =
     (case indexOf s sep of None \<Rightarrow> s | Some k \<Rightarrow> take k s) # rest"
  by (subst split_from_eq) (auto split: option.splits)

lemma split_length: "sep \<noteq> [] \<Longrightarrow> length (split s sep) \<le> 1 \<longleftrightarrow> indexOf s sep = None"
proof (cases "indexOf s sep")
  case None
  assume "sep \<noteq> []"
  with None show ?thesis by (simp add: split_None)
next
  case (Some i)
  assume s: "sep \<noteq> []"
  from split_from_hd[OF s, of "drop (i + length sep) s"] obtain x rest
    where "split_from sep [] (drop (i + length sep) s) = x # rest" by blast
  with Some s show ?thesis by (simp add: split_Some)
qed

lemma split_second:
  assumes "sep \<noteq> []" "indexOf s sep = Some i"
  shows "split s sep ! 1 =
     (case indexOf (drop (i + length sep) s) sep of
        None \<Rightarrow> drop (i + length sep) s
      | Some k \<Rightarrow> take k (drop (i + length sep) s))"
proof -
  from split_from_hd[OF assms(1), of "drop (i + length sep) s"] obtain rest
    where "split_from sep [] (drop (i + length sep) s) =
      (case indexOf (drop (i + length sep) s) sep of None \<Rightarrow> drop (i + length sep) s
        | Some k \<Rightarrow> take k (drop (i + length sep) s)) # rest" by blast
  with assms show ?thesis by (simp add: split_Some)
qed


section \<open>Facts about the brace scan\<close>

lemma escapeNext_same: "\<not> escapeNext st \<Longrightarrow> st\<lparr>escapeNext := False\<rparr> = (st :: scan_state)"
  by (cases st) simp

lemma inString_same:
  "\<not> inString st \<Longrightarrow> st\<lparr>inString := False, stringChar := []\<rparr> = (st :: scan_state)\<lparr>stringChar := []\<rparr>"
  by (cases st) simp

lemma scan_in_literal:
  "literal_body q body \<Longrightarrow> inString st \<Longrightarrow> \<not> escapeNext st \<Longrightarrow> stringChar st = [q] \<Longrightarrow>
   scan_loop (body @ rest) i st = scan_loop rest (i + length body) st"
proof (induction q body arbitrary: i rule: literal_body.induct)
  case (1 q)
  then show ?case by simp
next
  case (2 q c cs)
  show ?case
  proof (cases "c = CHR 0x5C")
    case True
    with 2(3) obtain x r where cs: "cs = x # r" and lb: "literal_body q r"
      by (cases cs) auto
    have "scan_loop ((c # cs) @ rest) i st = scan_loop (r @ rest) (Suc (Suc i)) st"
      using True cs 2(4,5) by (simp add: scan_step_def escapeNext_same)
    also have "\<dots> = scan_loop rest (Suc (Suc i) + length r) st"
      using 2(1)[OF True cs lb 2(4) 2(5) 2(6)] .
    finally show ?thesis using cs by simp
  next
    case False
    with 2(3) have ne: "c \<noteq> q" and lb: "literal_body q cs" by auto
    have "scan_loop ((c # cs) @ rest) i st = scan_loop (cs @ rest) (Suc i) st"
      using False ne 2(4,5,6) by (simp add: scan_step_def)
    also have "\<dots> = scan_loop rest (Suc i + length cs) st"
      using 2(2)[OF False lb 2(4) 2(5) 2(6)] .
    finally show ?thesis by simp
  qed
qed

lemma scan_literal:
  assumes "\<not> inString st" "\<not> escapeNext st" "q = CHR 0x22 \<or> q = CHR 0x27" "literal_body q body"
  shows "scan_loop (q # body @ q # rest) i st = scan_loop rest (i + length body + 2) (st\<lparr>stringChar := []\<rparr>)"
proof -
  let ?st1 = "st\<lparr>inString := True, stringChar := [q]\<rparr>"
  have q: "q \<noteq> CHR 0x5C" using assms(3) by auto
  have "scan_loop (q # body @ q # rest) i st = scan_loop (body @ q # rest) (Suc i) ?st1"
    using assms(1,2,3) q by (auto simp add: scan_step_def)
  also have "\<dots> = scan_loop (q # rest) (Suc i + length body) ?st1"
    using scan_in_literal[OF assms(4), of ?st1 "q # rest" "Suc i"] assms(2) by simp
  also have "\<dots> = scan_loop rest (i + length body + 2) (st\<lparr>stringChar := []\<rparr>)"
    using assms(1,2) q by (simp add: scan_step_def inString_same)
  finally show ?thesis .
qed

lemma scan_loop_bounds: "scan_loop xs i st = Some e \<Longrightarrow> i \<le> e \<and> e < i + length xs"
proof (induction xs arbitrary: i st)
  case Nil
  then show ?case by simp
next
  case (Cons c cs)
  obtain st' b where s: "scan_step st c = (st', b)" by (cases "scan_step st c")
  show ?case
  proof (cases b)
    case True
    with s Cons.prems show ?thesis by simp
  next
    case False
    with s Cons.prems have "scan_loop cs (Suc i) st' = Some e" by simp
    from Cons.IH[OF this] show ?thesis by simp
  qed
qed

lemma scan_loop_shift: "scan_loop xs (i + d) st = map_option (\<lambda>e. e + d) (scan_loop xs i st)"
proof (induction xs arbitrary: i st)
  case Nil
  then show ?case by simp
next
  case (Cons c cs)
  obtain st' b where s: "scan_step st c = (st', b)" by (cases "scan_step st c")
  show ?case
  proof (cases b)
    case True
    with s show ?thesis by simp
  next
    case False
    with s Cons.IH[of "Suc i" st'] show ?thesis by simp
  qed
qed

lemma scan_loop_prefix:
  "scan_loop (xs @ ys) i st = Some e \<Longrightarrow> e < i + length xs \<Longrightarrow> scan_loop (xs @ zs) i st = Some e"
proof (induction xs arbitrary: i st)
  case Nil
  from scan_loop_bounds[OF Nil(1)[simplified]] Nil(2) show ?case by simp
next
  case (Cons c cs)
  obtain st' b where s: "scan_step st c = (st', b)" by (cases "scan_step st c")
  show ?case
  proof (cases b)
    case True
    with s Cons.prems show ?thesis by simp
  next
    case False
    with s Cons.prems have "scan_loop (cs @ ys) (Suc i) st' = Some e" by simp
    from Cons.IH[OF this] Cons.prems(2) s False show ?thesis by simp
  qed
qed


lemma parseCharByChar_scan_object:
  "parseCharByChar json varName html videoId =
     (case scan_object varName html of
        None \<Rightarrow> Inl (youTubeDataUnparsable videoId)
      | Some s \<Rightarrow> (case json s of None \<Rightarrow> Inl (youTubeDataUnparsable videoId) | Some v \<Rightarrow> Inr v))"
  by (simp add: parseCharByChar_def scan_object_def after_var_def Let_def split: option.splits)

lemma scan_object_None:
  "scan_object varName html = None \<longleftrightarrow>
     after_var varName html = None
     \<or> (\<exists>a. after_var varName html = Some a
           \<and> (indexOf a ''{'' = None
               \<or> (\<exists>k. indexOf a ''{'' = Some k \<and> scan_loop (drop k a) k scan_init = None)))"
  by (auto simp: scan_object_def split: option.splits)

lemma after_var_None:
  assumes "varName \<noteq> []"
  shows "after_var varName html = None \<longleftrightarrow>
     \<not> str_includes html (''var '' @ varName) \<and> \<not> str_includes html varName"
proof -
  have m: "''var '' @ varName \<noteq> []" by simp
  show ?thesis
    using split_length[OF m, of html] split_length[OF assms, of html]
    by (auto simp: after_var_def Let_def str_includes_def)
qed

lemma after_var_empty_name: "after_var [] html = None \<longleftrightarrow> length html \<le> 1"
proof -
  have m: "''var '' \<noteq> []" by simp
  have "indexOf html ''var '' = None" if "length html \<le> 1"
    using that by (intro indexOf_short) simp
  then show ?thesis
    using split_length[OF m, of html]
    by (auto simp: after_var_def Let_def split_def)
qed

lemma after_var_no_marker:
  assumes "after_var varName html = Some a"
  shows "indexOf a (''var '' @ varName) = None"
proof -
  let ?m = "''var '' @ varName"
  have m: "?m \<noteq> []" by simp
  show ?thesis
  proof (cases "length (split html ?m) \<le> 1")
    case False
    then obtain i where i: "indexOf html ?m = Some i"
      using split_length[OF m, of html] by auto
    from False assms have a: "a = split html ?m ! 1"
      by (simp add: after_var_def Let_def split: if_splits)
    let ?rest = "drop (i + length ?m) html"
    show ?thesis
    proof (cases "indexOf ?rest ?m")
      case None
      with a split_second[OF m i] show ?thesis by simp
    next
      case (Some k)
      with a split_second[OF m i] have "a = take k ?rest" by simp
      with indexOf_take_None[OF Some m] show ?thesis by simp
    qed
  next
    case True
    then have none: "indexOf html ?m = None" using split_length[OF m, of html] by simp
    from True assms have len: "\<not> length (split html varName) \<le> 1"
      and a: "a = split html varName ! 1"
      by (auto simp add: after_var_def Let_def split: if_splits)
    show ?thesis
    proof (cases "varName = []")
      case True
      with len a have "length a = 1" by (simp add: split_def)
      then show ?thesis by (intro indexOf_short) simp
    next
      case False
      from len obtain i where i: "indexOf html varName = Some i"
        using split_length[OF False, of html] by auto
      let ?rest = "drop (i + length varName) html"
      have "\<exists>x y. html = x @ a @ y"
      proof (cases "indexOf ?rest varName")
        case None
        with a split_second[OF False i] have "a = ?rest" by simp
        then have "html = take (i + length varName) html @ a @ []" by simp
        then show ?thesis by blast
      next
        case (Some k)
        with a split_second[OF False i] have "a = take k ?rest" by simp
        moreover have "?rest = take k ?rest @ drop k ?rest" by (simp only: append_take_drop_id)
        ultimately have "?rest = a @ drop k ?rest" by (simp only:)
        then have "html = take (i + length varName) html @ a @ drop k ?rest"
          by (metis append_take_drop_id)
        then show ?thesis by blast
      qed
      then obtain x y where "html = x @ a @ y" by blast
      with none indexOf_infix_None show ?thesis by blast
    qed
  qed
qed

lemma marker_not_in_wrapped:
  assumes s: "indexOf s (''var '' @ varName) = None" and semi: "CHR '';'' \<notin> set varName"
  shows "indexOf ('' = '' @ s @ '';'') (''var '' @ varName) = None"
  unfolding indexOf_None_iff
proof (intro allI notI)
  fix a b
  let ?m = "''var '' @ varName"
  assume e: "'' = '' @ s @ '';'' = a @ ?m @ b"
  have "\<exists>a'. s @ '';'' = a' @ ?m @ b"
  proof (cases a)
    case Nil
    with e show ?thesis by simp
  next
    case (Cons x1 a1)
    show ?thesis
    proof (cases a1)
      case Nil
      with Cons e show ?thesis by simp
    next
      case (Cons x2 a2)
      show ?thesis
      proof (cases a2)
        case Nil
        with Cons \<open>a = x1 # a1\<close> e show ?thesis by simp
      next
        case (Cons x3 a3)
        with \<open>a1 = x2 # a2\<close> \<open>a = x1 # a1\<close> e show ?thesis by simp
      qed
    qed
  qed
  then obtain a' where e': "s @ '';'' = a' @ ?m @ b" by blast
  show False
  proof (cases b rule: rev_cases)
    case Nil
    with e' have "last (s @ '';'') = last (a' @ ?m)" by simp
    then have "last ?m = CHR '';''" by simp
    then show False using semi last_in_set[of varName] by (cases "varName = []") auto
  next
    case (snoc b' x)
    with e' have "s @ '';'' = (a' @ ?m @ b') @ [x]" by simp
    then have "s = a' @ ?m @ b'" by (metis append1_eq_conv)
    with s show False unfolding indexOf_None_iff by blast
  qed
qed

lemma parseCharByChar_Inl:
  "parseCharByChar json varName html videoId = Inl e \<longleftrightarrow>
     e = youTubeDataUnparsable videoId
     \<and> (scan_object varName html = None
         \<or> (\<exists>s. scan_object varName html = Some s \<and> json s = None))"
  by (auto simp: parseCharByChar_scan_object split: option.splits)

lemma try_patterns_Inl:
  "try_patterns json ps html videoId = Inl e \<longleftrightarrow>
     (\<forall>p \<in> set ps. pattern_value json html p = None) \<and> e = youTubeDataUnparsable videoId"
  by (induction ps) (auto simp: pattern_value_def split: option.splits)

lemma parseWithRegex_Inl:
  "parseWithRegex RegExp json varName html videoId = Inl e \<longleftrightarrow>
     (if \<forall>source \<in> set (pattern_sources varName). RegExp source \<noteq> None
      then (\<forall>source \<in> set (pattern_sources varName).
              pattern_value json html (the (RegExp source)) = None)
           \<and> e = youTubeDataUnparsable videoId
      else e = SyntaxError)"
proof (cases "\<forall>source \<in> set (pattern_sources varName). RegExp source \<noteq> None")
  case True
  then have "\<not> (\<exists>pattern \<in> set (map RegExp (pattern_sources varName)). Option.is_none pattern)"
    by (auto simp: Option.is_none_def)
  then show ?thesis
    using True by (simp add: parseWithRegex_def Let_def try_patterns_Inl)
next
  case False
  then obtain source where "source \<in> set (pattern_sources varName)" "RegExp source = None"
    by blast
  then have "RegExp source \<in> set (map RegExp (pattern_sources varName))"
    by (metis image_eqI list.set_map)
  moreover have "Option.is_none (RegExp source)"
    using \<open>RegExp source = None\<close> by (simp add: Option.is_none_def)
  ultimately have "\<exists>pattern \<in> set (map RegExp (pattern_sources varName)). Option.is_none pattern"
    by blast
  then show ?thesis
    using False by (auto simp: parseWithRegex_def Let_def)
qed

lemma parse_Inl:
  "JsVarParser_parse RegExp json varName html videoId = Inl e \<longleftrightarrow>
     (scan_object varName html = None
      \<or> (\<exists>s. scan_object varName html = Some s \<and> json s = None))
     \<and> parseWithRegex RegExp json varName html videoId = Inl e"
proof (cases "parseCharByChar json varName html videoId")
  case (Inl x)
  then show ?thesis
    using parseCharByChar_Inl[of json varName html videoId x]
    by (simp add: JsVarParser_parse_def)
next
  case (Inr v)
  then have "\<not> (scan_object varName html = None
      \<or> (\<exists>s. scan_object varName html = Some s \<and> json s = None))"
    using parseCharByChar_Inl[of json varName html videoId "youTubeDataUnparsable videoId"]
    by simp
  then show ?thesis using Inr by (simp add: JsVarParser_parse_def)
qed

lemma no_match_no_value: "pattern html = None \<Longrightarrow> pattern_value json html pattern = None"
  by (simp add: pattern_value_def)


section \<open>Facts about white space\<close>

lemma rx_star_gen:
  assumes m: "\<And>c cs K. m (c # cs) K = (if P c then K cs else None)" "\<And>K. m [] K = None"
  shows "length s \<le> n \<Longrightarrow> (\<forall>t. k t \<noteq> None) \<Longrightarrow> rx_star m n s k = k (dropWhile P s)"
proof (induction n arbitrary: s)
  case 0
  then show ?case by simp
next
  case (Suc n)
  show ?case
  proof (cases s)
    case Nil
    then show ?thesis by (simp add: m)
  next
    case (Cons c cs)
    show ?thesis
    proof (cases "P c")
      case True
      from Suc.prems Cons have "length cs \<le> n" by simp
      from Suc.IH[OF this Suc.prems(2)] have ih: "rx_star m n cs k = k (dropWhile P cs)" .
      from Suc.prems(2) obtain r where r: "k (dropWhile P cs) = Some r" by (meson option.exhaust)
      show ?thesis using Cons True ih r by (simp add: m)
    next
      case False
      then show ?thesis using Cons by (simp add: m)
    qed
  qed
qed

lemma rx_star_sat:
  "length s \<le> n \<Longrightarrow> (\<forall>t. k t \<noteq> None) \<Longrightarrow>
   rx_star (rx_match (Sat P)) n s k = k (dropWhile P s)"
  by (rule rx_star_gen) simp_all

lemma take_length_dropWhile: "take (length s - length (dropWhile P s)) s = takeWhile P s"
proof -
  have "length s = length (takeWhile P s) + length (dropWhile P s)"
    by (metis length_append takeWhile_dropWhile_id)
  then have "length s - length (dropWhile P s) = length (takeWhile P s)" by simp
  then show ?thesis by (metis append_eq_conv_conj takeWhile_dropWhile_id)
qed

lemma rx_exec_ws:
  "rx_exec (Eps, plus (Sat is_space), Eps) s =
     (if s \<noteq> [] \<and> is_space (hd s)
      then Some (takeWhile is_space s, takeWhile is_space s, dropWhile is_space s)
      else None)"
proof (cases s)
  case Nil
  then show ?thesis by (simp add: rx_exec_def plus_def)
next
  case (Cons c cs)
  show ?thesis
  proof (cases "is_space c")
    case False
    with Cons show ?thesis by (simp add: rx_exec_def plus_def)
  next
    case True
    let ?k = "\<lambda>s2. Some (take (length s - length s2) s, take (length s - length s2) s, s2)"
    have "rx_exec (Eps, plus (Sat is_space), Eps) s = rx_star (rx_match (Sat is_space)) (length cs) cs ?k"
      using Cons True by (simp add: rx_exec_def plus_def)
    also have "\<dots> = ?k (dropWhile is_space cs)"
      by (rule rx_star_sat) auto
    also have "dropWhile is_space cs = dropWhile is_space s" using Cons True by simp
    finally show ?thesis using Cons True by (simp only: take_length_dropWhile) simp
  qed
qed

lemma collapse_Nil: "collapse [] = []"
  unfolding collapse_def by (subst replace_all.simps) (simp add: rx_exec_ws)

lemma collapse_nonspace: "\<not> is_space c \<Longrightarrow> collapse (c # cs) = c # collapse cs"
  unfolding collapse_def by (subst replace_all.simps) (simp add: rx_exec_ws)

lemma collapse_space: "is_space c \<Longrightarrow> collapse (c # cs) = CHR '' '' # collapse (dropWhile is_space cs)"
proof -
  assume c: "is_space c"
  have "length (dropWhile is_space cs) \<le> length cs" by (rule length_dropWhile_le)
  then show ?thesis
    unfolding collapse_def using c by (subst replace_all.simps) (simp add: rx_exec_ws)
qed


lemma ws_run_Cons:
  "ws_run (c # t) \<longleftrightarrow> (t \<noteq> [] \<and> is_space c \<and> is_space (hd t)) \<or> ws_run t"
proof
  assume "ws_run (c # t)"
  then obtain a x y b where e: "c # t = a @ x # y # b" and s: "is_space x" "is_space y"
    by (auto simp: ws_run_def)
  show "(t \<noteq> [] \<and> is_space c \<and> is_space (hd t)) \<or> ws_run t"
  proof (cases a)
    case Nil
    with e s show ?thesis by auto
  next
    case (Cons a1 a')
    with e have "t = a' @ x # y # b" by simp
    with s show ?thesis by (auto simp: ws_run_def)
  qed
next
  assume h: "(t \<noteq> [] \<and> is_space c \<and> is_space (hd t)) \<or> ws_run t"
  then show "ws_run (c # t)"
  proof
    assume a: "t \<noteq> [] \<and> is_space c \<and> is_space (hd t)"
    then obtain d b where "t = d # b" by (cases t) auto
    with a have "c # t = [] @ c # d # b \<and> is_space c \<and> is_space d" by simp
    then show ?thesis unfolding ws_run_def by blast
  next
    assume "ws_run t"
    then obtain a x y b where "t = a @ x # y # b" "is_space x" "is_space y"
      by (auto simp: ws_run_def)
    then have "c # t = (c # a) @ x # y # b \<and> is_space x \<and> is_space y" by simp
    then show ?thesis unfolding ws_run_def by blast
  qed
qed

lemma ws_run_Nil: "\<not> ws_run []"
  by (simp add: ws_run_def)

lemma collapse_props:
  "\<not> ws_run (collapse s) \<and> (\<forall>c \<in> set (collapse s). is_space c \<longrightarrow> c = CHR '' '')
   \<and> (s \<noteq> [] \<and> \<not> is_space (hd s) \<longrightarrow> collapse s \<noteq> [] \<and> hd (collapse s) = hd s)"
proof (induction s rule: length_induct)
  case (1 s)
  show ?case
  proof (cases s)
    case Nil
    then show ?thesis by (simp add: collapse_Nil ws_run_Nil)
  next
    case (Cons c cs)
    show ?thesis
    proof (cases "is_space c")
      case False
      have "length cs < length s" using Cons by simp
      with 1 have ih: "\<not> ws_run (collapse cs) \<and> (\<forall>c \<in> set (collapse cs). is_space c \<longrightarrow> c = CHR '' '')"
        by blast
      show ?thesis using Cons False ih by (simp add: collapse_nonspace ws_run_Cons)
    next
      case True
      let ?r = "dropWhile is_space cs"
      have "length ?r < length s" using Cons length_dropWhile_le[of is_space cs] by simp
      with 1 have ih: "\<not> ws_run (collapse ?r) \<and> (\<forall>c \<in> set (collapse ?r). is_space c \<longrightarrow> c = CHR '' '')
        \<and> (?r \<noteq> [] \<and> \<not> is_space (hd ?r) \<longrightarrow> collapse ?r \<noteq> [] \<and> hd (collapse ?r) = hd ?r)"
        by blast
      have hd: "?r \<noteq> [] \<Longrightarrow> \<not> is_space (hd ?r)" by (rule hd_dropWhile)
      have "collapse ?r \<noteq> [] \<Longrightarrow> \<not> is_space (hd (collapse ?r))"
      proof (cases "?r = []")
        case True
        assume ne: "collapse ?r \<noteq> []"
        from True have "collapse ?r = []" by (simp only: collapse_Nil)
        with ne show ?thesis by blast
      next
        case False
        with hd ih show ?thesis by simp
      qed
      then show ?thesis using Cons True ih by (auto simp add: collapse_space ws_run_Cons)
    qed
  qed
qed

lemma ws_run_infix: "ws_run t \<Longrightarrow> ws_run (a @ t @ b)"
proof -
  assume "ws_run t"
  then obtain a' x y b' where "t = a' @ x # y # b'" "is_space x" "is_space y"
    by (auto simp: ws_run_def)
  then have "a @ t @ b = (a @ a') @ x # y # (b' @ b) \<and> is_space x \<and> is_space y" by simp
  then show ?thesis unfolding ws_run_def by blast
qed

lemma trim_infix: "\<exists>a b. s = a @ trim s @ b"
proof -
  let ?y = "dropWhile is_space s"
  have 1: "s = takeWhile is_space s @ ?y" by simp
  have "rev ?y = takeWhile is_space (rev ?y) @ dropWhile is_space (rev ?y)" by simp
  then have "?y = rev (dropWhile is_space (rev ?y)) @ rev (takeWhile is_space (rev ?y))"
    by (metis rev_append rev_rev_ident)
  then have "?y = trim s @ rev (takeWhile is_space (rev ?y))" by (simp add: trim_def)
  with 1 show ?thesis by metis
qed

lemma trim_ends:
  assumes "trim s \<noteq> []"
  shows "\<not> is_space (hd (trim s)) \<and> \<not> is_space (last (trim s))"
proof -
  let ?y = "dropWhile is_space s"
  let ?z = "dropWhile is_space (rev ?y)"
  have t: "trim s = rev ?z" by (simp add: trim_def)
  with assms have z: "?z \<noteq> []" by simp
  then have zy: "rev ?y \<noteq> []" by (metis dropWhile.simps(1))
  then have y: "?y \<noteq> []" by simp
  have last: "\<not> is_space (last (trim s))" using z t hd_dropWhile[of is_space "rev ?y"]
    by (simp add: last_rev)
  have "?y = trim s @ rev (takeWhile is_space (rev ?y))"
    unfolding t by (metis rev_append rev_rev_ident takeWhile_dropWhile_id)
  then have "hd ?y = hd (trim s)" using assms by (metis hd_append2)
  moreover have "\<not> is_space (hd ?y)" using y by (rule hd_dropWhile)
  ultimately show ?thesis using last by simp
qed

lemma trim_set: "set (trim s) \<subseteq> set s"
proof -
  obtain a b where "s = a @ trim s @ b" using trim_infix by blast
  then have "set s = set a \<union> set (trim s) \<union> set b" by (metis set_append Un_assoc)
  then show ?thesis by blast
qed

lemma clean_whitespace_props:
  "\<not> ws_run (clean_whitespace s)
   \<and> (\<forall>c \<in> set (clean_whitespace s). is_space c \<longrightarrow> c = CHR '' '')
   \<and> (clean_whitespace s \<noteq> [] \<longrightarrow>
        \<not> is_space (hd (clean_whitespace s)) \<and> \<not> is_space (last (clean_whitespace s)))"
proof -
  have c: "clean_whitespace s = trim (collapse s)" by (simp add: clean_whitespace_def)
  obtain a b where ab: "collapse s = a @ clean_whitespace s @ b" using trim_infix c by metis
  have "\<not> ws_run (clean_whitespace s)"
    using collapse_props[of s] ws_run_infix[of "clean_whitespace s" a b] ab by auto
  moreover have "\<forall>c \<in> set (clean_whitespace s). is_space c \<longrightarrow> c = CHR '' ''"
    using collapse_props[of s] trim_set[of "collapse s"] c by auto
  ultimately show ?thesis using trim_ends[of "collapse s"] c by simp
qed


section \<open>Facts about segments and the tag filter\<close>

lemma digit_not_space: "is_digit c \<Longrightarrow> \<not> is_space c"
  by (auto simp: is_digit_def is_space_def)

lemma parseFloat_digits:
  assumes ds: "ds \<noteq> []" "\<forall>c \<in> set ds. is_digit c"
    and rest: "rest = [] \<or> (\<not> is_digit (hd rest) \<and> hd rest \<notin> {CHR ''.'', CHR ''e'', CHR ''E''})"
  shows "parseFloat (ds @ rest) = Finite (of_nat (digits_val ds))"
proof -
  obtain d ds' where d: "ds = d # ds'" using ds(1) by (cases ds) auto
  have dd: "is_digit d" using ds(2) d by simp
  have 1: "dropWhile is_space (ds @ rest) = ds @ rest"
    using d digit_not_space[OF dd] by simp
  have 2: "d \<noteq> CHR ''-''" "d \<noteq> CHR ''+''" "d \<noteq> CHR ''I''"
    using dd by (auto simp: is_digit_def)
  have 3: "takeWhile is_digit (ds @ rest) = ds"
  proof (cases rest)
    case Nil
    then show ?thesis using ds(2) by simp
  next
    case (Cons r rs)
    with rest have "\<not> is_digit r" by simp
    with Cons show ?thesis using ds(2) by (simp add: takeWhile_append2)
  qed
  have 4: "rest \<noteq> [] \<Longrightarrow> hd rest \<noteq> CHR ''.'' \<and> hd rest \<noteq> CHR ''e'' \<and> hd rest \<noteq> CHR ''E''"
    using rest by auto
  show ?thesis
    unfolding parseFloat_def 1
    using 2 3 4 d by (auto simp: Let_def digits_val_def)
qed





lemma parse_Inr:
  "TranscriptParser_parse L self rawData = Inr snippets \<longleftrightarrow>
     str_includes rawData ''<transcript'' \<and> str_includes rawData ''</transcript>''
     \<and> count_matches open_tag_pattern rawData = count_matches close_tag_pattern rawData
     \<and> select ''transcript'' (load_xml L rawData) \<noteq> []
     \<and> snippets = concat (map (segment_snippets L self) (select ''text'' (load_xml L rawData)))"
  by (auto simp: TranscriptParser_parse_def failed_def Let_def)


section \<open>Properties of the extractor\<close>

text \<open>
  Claim C1, as the code has it.  Outside a string and with no escape pending,
  the scan treats what comes next as follows, whatever follows it (\<open>rest\<close>):
  \<^item> a string literal, from its opening quote to the matching unescaped quote,
    is passed over as a whole: the braces in it leave the depth as it is, a
    backslash in it takes the next character with it, and the scan is outside a
    string again after it;
  \<^item> an opening brace adds one to the depth; a closing brace takes one off, and
    the scan ends at its index when the depth reaches 0;
  \<^item> a backslash takes the next character with it here as well: that character
    is passed over, be it a brace or a quote;
  \<^item> any other character leaves the state as it is.
\<close>

theorem scanner_rules:
  assumes "\<not> inString st" and "\<not> escapeNext st"
  shows "(\<forall>q body. (q = CHR 0x22 \<or> q = CHR 0x27) \<and> literal_body q body \<longrightarrow>
            scan_loop (q # body @ q # rest) i st
              = scan_loop rest (i + length body + 2) (st\<lparr>stringChar := []\<rparr>))
       \<and> scan_loop (CHR ''{'' # rest) i st = scan_loop rest (Suc i) (st\<lparr>braceCount := braceCount st + 1\<rparr>)
       \<and> scan_loop (CHR ''}'' # rest) i st
            = (if braceCount st = 1 then Some i
               else scan_loop rest (Suc i) (st\<lparr>braceCount := braceCount st - 1\<rparr>))
       \<and> (\<forall>c. scan_loop (CHR 0x5C # c # rest) i st = scan_loop rest (i + 2) st)
       \<and> (\<forall>c. c \<notin> {CHR 0x5C, CHR 0x22, CHR 0x27, CHR ''{'', CHR ''}''} \<longrightarrow>
            scan_loop (c # rest) i st = scan_loop rest (Suc i) st)"
proof (intro conjI allI impI)
  fix q body assume "(q = CHR 0x22 \<or> q = CHR 0x27) \<and> literal_body q body"
  then show "scan_loop (q # body @ q # rest) i st
              = scan_loop rest (i + length body + 2) (st\<lparr>stringChar := []\<rparr>)"
    using scan_literal[OF assms] by blast
next
  show "scan_loop (CHR ''{'' # rest) i st = scan_loop rest (Suc i) (st\<lparr>braceCount := braceCount st + 1\<rparr>)"
    using assms by (simp add: scan_step_def)
next
  show "scan_loop (CHR ''}'' # rest) i st
            = (if braceCount st = 1 then Some i
               else scan_loop rest (Suc i) (st\<lparr>braceCount := braceCount st - 1\<rparr>))"
    using assms by (simp add: scan_step_def)
next
  fix c show "scan_loop (CHR 0x5C # c # rest) i st = scan_loop rest (i + 2) st"
    using assms by (simp add: scan_step_def escapeNext_same)
next
  fix c assume "c \<notin> {CHR 0x5C, CHR 0x22, CHR 0x27, CHR ''{'', CHR ''}''}"
  then show "scan_loop (c # rest) i st = scan_loop rest (Suc i) st"
    using assms by (simp add: scan_step_def)
qed

text \<open>
  The rule for string literals at work: at depth 1, the closing brace inside
  \<^verbatim>\<open>"a}b"\<close> is passed over, and the scan ends at the brace after the literal.
\<close>

theorem scanner_rules_witness:
  "\<not> inString (scan_init\<lparr>braceCount := 1\<rparr>) \<and> \<not> escapeNext (scan_init\<lparr>braceCount := 1\<rparr>)
   \<and> literal_body (CHR 0x22) ''a}b''
   \<and> scan_loop (CHR 0x22 # ''a}b'' @ CHR 0x22 # ''}'') 1 (scan_init\<lparr>braceCount := 1\<rparr>) = Some 6"
proof -
  let ?st = "scan_init\<lparr>braceCount := 1\<rparr>"
  have h1: "\<not> inString ?st" by (simp add: scan_init_def)
  have h2: "\<not> escapeNext ?st" by (simp add: scan_init_def)
  have h3: "literal_body (CHR 0x22) ''a}b''" by simp
  from scanner_rules[OF h1 h2, of "''}''" 1] h3
  have "scan_loop (CHR 0x22 # ''a}b'' @ CHR 0x22 # ''}'') 1 ?st
          = scan_loop ''}'' (1 + length ''a}b'' + 2) (?st\<lparr>stringChar := []\<rparr>)"
    by blast
  also have "\<dots> = Some 6" by (simp add: scan_init_def scan_step_def)
  finally show ?thesis using h1 h2 h3 by blast
qed


text \<open>
  Claim C1 as the specification words it fails: a backslash outside a string
  does change what the scan takes as structural.  From the initial state, an
  opening brace after a backslash is not counted; and in \<^verbatim>\<open>{\}}\<close> the scan
  ends at index 3, where \<^verbatim>\<open>{}}\<close> ends at index 1.
\<close>

theorem scanner_backslash_counterexample:
  "\<not> inString scan_init \<and> \<not> escapeNext scan_init
   \<and> scan_step (fst (scan_step scan_init (CHR 0x5C))) CHR ''{'' \<noteq> scan_step scan_init CHR ''{''
   \<and> scan_loop (''{'' @ [CHR 0x5C] @ ''}}'') 0 scan_init = Some 3
   \<and> scan_loop ''{}}'' 0 scan_init = Some 1"
  by (simp add: scan_init_def scan_step_def)

text \<open>
  Claim C5, as the code has it.  For every engine, every \<^verbatim>\<open>JSON.parse\<close>,
  every variable name and every text, extraction fails exactly when the scan
  fails and the pattern strategy fails, and the pattern strategy fails in one
  of two ways: when the three pattern texts are valid and no pattern yields a
  value, the error is the ``data unparsable'' one with the caller's video id;
  when the name makes a pattern text invalid, it is the \<^verbatim>\<open>SyntaxError\<close> of
  \<^verbatim>\<open>new RegExp\<close>, which nothing catches.  The scan fails when the marker is
  absent (for a name that is not empty: neither \<^verbatim>\<open>var NAME\<close> nor \<^verbatim>\<open>NAME\<close>
  occurs in the text); or the text after the marker (\<open>after_var\<close>: up to the
  marker's next occurrence) has no opening brace, or its braces do not balance;
  or the substring the scan bounds is not valid JSON.  With the name \<^verbatim>\<open>a(\<close> the
  pattern texts have a parenthesis that is never closed, and the text
  \<^verbatim>\<open>no such var here\<close> of the claim fails with the \<^verbatim>\<open>SyntaxError\<close>; with
  the name \<^verbatim>\<open>X\<close> the two inputs of the claim fail as the claim says, whatever
  \<^verbatim>\<open>JSON.parse\<close> does.
\<close>

theorem extraction_failure:
  fixes RegExp :: "string \<Rightarrow> regexp option" and json :: "string \<Rightarrow> 'v option"
  shows \<open>(JsVarParser_parse RegExp json varName html videoId = Inl e \<longleftrightarrow>
            (after_var varName html = None
             \<or> (\<exists>a. after_var varName html = Some a
                   \<and> (indexOf a ''{'' = None
                       \<or> (\<exists>k. indexOf a ''{'' = Some k
                             \<and> scan_loop (drop k a) k scan_init = None)))
             \<or> (\<exists>s. scan_object varName html = Some s \<and> json s = None))
            \<and> (if \<forall>source \<in> set (pattern_sources varName). RegExp source \<noteq> None
               then (\<forall>source \<in> set (pattern_sources varName).
                       pattern_value json html (the (RegExp source)) = None)
                    \<and> e = youTubeDataUnparsable videoId
               else e = SyntaxError))
         \<and> (after_var varName html = None \<longleftrightarrow>
              (if varName = [] then length html \<le> 1
               else \<not> str_includes html (''var '' @ varName) \<and> \<not> str_includes html varName))
         \<and> JsVarParser_parse reference_RegExp json ''a('' ''no such var here'' videoId
             = Inl SyntaxError
         \<and> JsVarParser_parse reference_RegExp json ''X'' ''no such var here'' videoId
             = Inl (youTubeDataUnparsable videoId)
         \<and> JsVarParser_parse reference_RegExp json ''X'' ''var X = {"a": 1'' videoId
             = Inl (youTubeDataUnparsable videoId)\<close>
proof -
  have gen: "JsVarParser_parse R json name page videoId = Inl err \<longleftrightarrow>
            (after_var name page = None
             \<or> (\<exists>a. after_var name page = Some a
                   \<and> (indexOf a ''{'' = None
                       \<or> (\<exists>k. indexOf a ''{'' = Some k
                             \<and> scan_loop (drop k a) k scan_init = None)))
             \<or> (\<exists>s. scan_object name page = Some s \<and> json s = None))
            \<and> (if \<forall>source \<in> set (pattern_sources name). R source \<noteq> None
               then (\<forall>source \<in> set (pattern_sources name).
                       pattern_value json page (the (R source)) = None)
                    \<and> err = youTubeDataUnparsable videoId
               else err = SyntaxError)"
    for R :: "string \<Rightarrow> regexp option" and name page err
    unfolding parse_Inl parseWithRegex_Inl scan_object_None by blast
  have marker: "after_var varName html = None \<longleftrightarrow>
              (if varName = [] then length html \<le> 1
               else \<not> str_includes html (''var '' @ varName) \<and> \<not> str_includes html varName)"
    using after_var_None[of varName html] after_var_empty_name[of html] by simp
  have a1: \<open>after_var ''a('' ''no such var here'' = None\<close>
    by code_simp
  have a2: \<open>Option.is_none (reference_RegExp (hd (pattern_sources ''a('')))
            \<and> hd (pattern_sources ''a('') \<in> set (pattern_sources ''a('')\<close>
    by code_simp
  then have a3: \<open>\<not> (\<forall>source \<in> set (pattern_sources ''a(''). reference_RegExp source \<noteq> None)\<close>
    unfolding Option.is_none_def by blast
  have ex0: \<open>JsVarParser_parse reference_RegExp json ''a('' ''no such var here'' videoId
             = Inl SyntaxError\<close>
    using gen[of reference_RegExp \<open>''a(''\<close> \<open>''no such var here''\<close> SyntaxError] a1 a3
    unfolding if_bool_eq_conj by blast
  have x1: \<open>\<forall>source \<in> set (pattern_sources ''X'').
              \<not> Option.is_none (reference_RegExp source)
              \<and> the (reference_RegExp source) ''no such var here'' = None
              \<and> the (reference_RegExp source) ''var X = {"a": 1'' = None\<close>
    by code_simp
  then have x2: \<open>\<forall>source \<in> set (pattern_sources ''X''). reference_RegExp source \<noteq> None\<close>
    and x3: \<open>\<forall>source \<in> set (pattern_sources ''X'').
               pattern_value json ''no such var here'' (the (reference_RegExp source)) = None\<close>
    and x4: \<open>\<forall>source \<in> set (pattern_sources ''X'').
               pattern_value json ''var X = {"a": 1'' (the (reference_RegExp source)) = None\<close>
    unfolding Option.is_none_def by (simp_all add: no_match_no_value)
  have b1: \<open>after_var ''X'' ''no such var here'' = None\<close>
    by code_simp
  have ex1: \<open>JsVarParser_parse reference_RegExp json ''X'' ''no such var here'' videoId
             = Inl (youTubeDataUnparsable videoId)\<close>
    using gen[of reference_RegExp \<open>''X''\<close> \<open>''no such var here''\<close> "youTubeDataUnparsable videoId"]
      b1 x2 x3
    unfolding if_bool_eq_conj by blast
  have c1: \<open>after_var ''X'' ''var X = {"a": 1'' = Some '' = {"a": 1''
            \<and> indexOf '' = {"a": 1'' ''{'' = Some 3
            \<and> scan_loop (drop 3 '' = {"a": 1'') 3 scan_init = None\<close>
    by code_simp
  then have c2: \<open>\<exists>a. after_var ''X'' ''var X = {"a": 1'' = Some a
          \<and> (indexOf a ''{'' = None
              \<or> (\<exists>k. indexOf a ''{'' = Some k \<and> scan_loop (drop k a) k scan_init = None))\<close>
    by blast
  have ex2: \<open>JsVarParser_parse reference_RegExp json ''X'' ''var X = {"a": 1'' videoId
             = Inl (youTubeDataUnparsable videoId)\<close>
    using gen[of reference_RegExp \<open>''X''\<close> \<open>''var X = {"a": 1''\<close> "youTubeDataUnparsable videoId"]
      c2 x2 x4
    unfolding if_bool_eq_conj by blast
  show ?thesis using gen[of RegExp varName html e] marker ex0 ex1 ex2
    unfolding if_bool_eq_conj by blast
qed

text \<open>
  The equivalence at two names and a page that has neither: for
  \<^verbatim>\<open>ytInitialPlayerResponse\<close> the patterns are valid, none matches, and the
  error is the ``data unparsable'' one; for \<^verbatim>\<open>ytcfg.set(\<close> the error is the
  \<^verbatim>\<open>SyntaxError\<close>.
\<close>

theorem extraction_failure_witness:
  \<open>JsVarParser_parse reference_RegExp JSON_parse ''ytInitialPlayerResponse''
       ''<html>var x = {};</html>'' ''dQw4''
     = Inl (youTubeDataUnparsable ''dQw4'')
   \<and> JsVarParser_parse reference_RegExp JSON_parse ''ytcfg.set(''
       ''<html>var x = {};</html>'' ''dQw4''
     = Inl SyntaxError\<close>
proof -
  have 1: \<open>after_var ''ytInitialPlayerResponse'' ''<html>var x = {};</html>'' = None
           \<and> after_var ''ytcfg.set('' ''<html>var x = {};</html>'' = None\<close>
    by code_simp
  have 2: \<open>\<forall>source \<in> set (pattern_sources ''ytInitialPlayerResponse'').
              \<not> Option.is_none (reference_RegExp source)
              \<and> the (reference_RegExp source) ''<html>var x = {};</html>'' = None\<close>
    by code_simp
  then have 3: \<open>\<forall>source \<in> set (pattern_sources ''ytInitialPlayerResponse'').
                 reference_RegExp source \<noteq> None\<close>
    and 4: \<open>\<forall>source \<in> set (pattern_sources ''ytInitialPlayerResponse'').
               pattern_value JSON_parse ''<html>var x = {};</html>'' (the (reference_RegExp source))
                 = None\<close>
    unfolding Option.is_none_def by (simp_all add: no_match_no_value)
  have 5: \<open>Option.is_none (reference_RegExp (hd (pattern_sources ''ytcfg.set('')))
            \<and> hd (pattern_sources ''ytcfg.set('') \<in> set (pattern_sources ''ytcfg.set('')\<close>
    by code_simp
  then have 6: \<open>\<not> (\<forall>source \<in> set (pattern_sources ''ytcfg.set('').
                       reference_RegExp source \<noteq> None)\<close>
    unfolding Option.is_none_def by blast
  have \<open>JsVarParser_parse reference_RegExp JSON_parse ''ytInitialPlayerResponse''
       ''<html>var x = {};</html>'' ''dQw4'' = Inl (youTubeDataUnparsable ''dQw4'')\<close>
    using extraction_failure[of reference_RegExp JSON_parse \<open>''ytInitialPlayerResponse''\<close>
            \<open>''<html>var x = {};</html>''\<close> \<open>''dQw4''\<close> "youTubeDataUnparsable ''dQw4''"]
          1 3 4
    unfolding if_bool_eq_conj by blast
  moreover have \<open>JsVarParser_parse reference_RegExp JSON_parse ''ytcfg.set(''
       ''<html>var x = {};</html>'' ''dQw4'' = Inl SyntaxError\<close>
    using extraction_failure[of reference_RegExp JSON_parse \<open>''ytcfg.set(''\<close>
            \<open>''<html>var x = {};</html>''\<close> \<open>''dQw4''\<close> SyntaxError]
          1 6
    unfolding if_bool_eq_conj by blast
  ultimately show ?thesis by blast
qed

text \<open>
  The name is part of the pattern text.  With the name \<^verbatim>\<open>a.b\<close> the dot stands
  for any character, and the second pattern finds the object in
  \<^verbatim>\<open>axb = {"k": 1};\<close>, where the scan finds no marker.  With the name
  \<^verbatim>\<open>a$b\<close> the \<^verbatim>\<open>$\<close> stands for the end of the input, and no pattern
  matches \<^verbatim>\<open>a$b = {"k": 1};\<close>.
\<close>

lemma name_in_pattern_text:
  \<open>JsVarParser_parse reference_RegExp JSON_parse ''a.b'' ''axb = {"k": 1};'' ''vid''
     = Inr (JObject [(map of_char ''k'', JNumber 1)])
   \<and> JsVarParser_parse reference_RegExp JSON_parse ''a$b'' ''a$b; a$b = {"k": 1};'' ''vid''
     = Inl (youTubeDataUnparsable ''vid'')\<close>
  by code_simp

text \<open>
  Claim C9, as the code has it.  When the scan strategy succeeds on a text and
  yields the value \<open>v\<close> from the substring \<open>s\<close>, and the variable name has no
  semicolon in it, then extraction on \<^verbatim>\<open>var NAME = s;\<close> scans the same substring
  \<open>s\<close> and yields \<open>v\<close> again (with any video id, and any engine).
\<close>

theorem rescan_same_value:
  assumes po: "parseCharByChar json varName html videoId = Inr v"
    and semi: "CHR '';'' \<notin> set varName"
  shows "\<exists>s. scan_object varName html = Some s \<and> json s = Some v
           \<and> scan_object varName (''var '' @ varName @ '' = '' @ s @ '';'') = Some s
           \<and> JsVarParser_parse RegExp json varName (''var '' @ varName @ '' = '' @ s @ '';'') videoId'
               = Inr v"
proof -
  let ?m = "''var '' @ varName"
  have m: "?m \<noteq> []" by simp
  from po obtain s where so: "scan_object varName html = Some s" and js: "json s = Some v"
    by (auto simp: parseCharByChar_scan_object split: option.splits)
  from so obtain a k e where av: "after_var varName html = Some a"
    and ik: "indexOf a ''{'' = Some k"
    and sl: "scan_loop (drop k a) k scan_init = Some e"
    and s: "s = substring a k (e + 1)"
    by (auto simp: scan_object_def split: option.splits)
  from indexOf_char_Some[OF ik] have k: "k < length a" "a ! k = CHR ''{''" by auto
  from scan_loop_bounds[OF sl] have e: "k \<le> e" "e < k + length (drop k a)" by auto
  have s_take: "s = take (e + 1 - k) (drop k a)" using s by (simp add: substring_def)
  have len_s: "length s = e + 1 - k" using s_take e by simp
  obtain tail where tail: "drop k a = s @ tail"
    using s_take by (metis append_take_drop_id)
  have hd_s: "\<exists>s'. s = CHR ''{'' # s'"
  proof -
    have "s \<noteq> []" using len_s e by auto
    moreover have "s ! 0 = CHR ''{''"
      using s_take e k by (simp add: Cons_nth_drop_Suc[symmetric] hd_drop_conv_nth)
    ultimately show ?thesis by (cases s) auto
  qed
  have "a = take k a @ s @ tail" using tail by (metis append_take_drop_id)
  with after_var_no_marker[OF av] have no_s: "indexOf s ?m = None"
    using indexOf_infix_None by metis
  let ?rest = "'' = '' @ s @ '';''"
  let ?w = "?m @ ?rest"
  have no_rest: "indexOf ?rest ?m = None" by (rule marker_not_in_wrapped[OF no_s semi])
  have iw: "indexOf ?w ?m = Some 0" by (simp add: startsWith_iff)
  have sp: "split ?w ?m = [[], ?rest]"
    using split_Some[OF m iw] split_from_eq[OF m, of "[]" ?rest] no_rest by simp
  have av': "after_var varName ?w = Some ?rest"
    using sp by (simp add: after_var_def Let_def)
  from hd_s obtain s' where s': "s = CHR ''{'' # s'" by blast
  have ib: "indexOf ?rest ''{'' = Some 3" using s' by simp
  have "scan_loop (s @ '';'') k scan_init = Some e"
    using scan_loop_prefix[of s tail k scan_init e "'';''"] sl tail e len_s by simp
  then have "scan_loop (s @ '';'') 0 scan_init = Some (e - k)"
    using scan_loop_shift[of "s @ '';''" 0 k scan_init] e by (auto simp: map_option_case split: option.splits)
  then have sl': "scan_loop (s @ '';'') 3 scan_init = Some (e - k + 3)"
    using scan_loop_shift[of "s @ '';''" 0 3 scan_init] by simp
  have sub: "substring ?rest 3 (e - k + 3 + 1) = s"
    using len_s e by (simp add: substring_def)
  have dr: "drop 3 ?rest = s @ '';''" by simp
  have so': "scan_object varName ?w = Some s"
    unfolding scan_object_def av' by (simp only: option.case ib dr sl' sub)
  have "parseCharByChar json varName ?w videoId' = Inr v"
    using so' js by (simp add: parseCharByChar_scan_object)
  then have "JsVarParser_parse RegExp json varName ?w videoId' = Inr v"
    by (simp add: JsVarParser_parse_def)
  with so js so' show ?thesis by auto
qed


text \<open>
  An instance: a script with a closing brace inside a string value; the scan
  yields the object, and so does the second run on the wrapped substring.
\<close>

theorem rescan_same_value_witness:
  \<open>parseCharByChar JSON_parse ''X'' ''<script>var X = {"a": "}"}; var Y = 1;</script>'' ''vid''
     = Inr (JObject [([97], JString [125])])
   \<and> CHR '';'' \<notin> set ''X''
   \<and> (\<exists>s. scan_object ''X'' ''<script>var X = {"a": "}"}; var Y = 1;</script>'' = Some s
          \<and> JSON_parse s = Some (JObject [([97], JString [125])])
          \<and> JsVarParser_parse reference_RegExp JSON_parse ''X'' (''var '' @ ''X'' @ '' = '' @ s @ '';'') ''other''
               = Inr (JObject [([97], JString [125])]))\<close>
proof -
  have 1: \<open>parseCharByChar JSON_parse ''X'' ''<script>var X = {"a": "}"}; var Y = 1;</script>'' ''vid''
     = Inr (JObject [([97], JString [125])])\<close> by code_simp
  have 2: \<open>CHR '';'' \<notin> set ''X''\<close> by simp
  from rescan_same_value[OF 1 2, where RegExp = reference_RegExp and videoId' = \<open>''other''\<close>] 1 2
  show ?thesis by blast
qed


text \<open>
  Claim C9 fails when the value came from the pattern strategy.  For the text
  \<^verbatim>\<open>X; X = {"abc': 1, 'd": 2};\<close> the scan throws (no brace follows the first
  \<^verbatim>\<open>X\<close>), the second pattern captures \<^verbatim>\<open>{"abc': 1, 'd": 2}\<close>, and quote
  normalisation turns it into an object with the keys \<^verbatim>\<open>abc\<close> and \<^verbatim>\<open>d\<close>.
  On \<^verbatim>\<open>var X = {"abc': 1, 'd": 2};\<close> the scan succeeds, and the captured
  text, valid JSON as it stands, is an object with the single key
  \<^verbatim>\<open>abc': 1, 'd\<close>.
\<close>

theorem rescan_regex_counterexample:
  \<open>JsVarParser_parse reference_RegExp JSON_parse ''X'' ''X; X = {"abc': 1, 'd": 2};'' ''vid''
     = Inr (JObject [(map of_char ''abc'', JNumber 1), (map of_char ''d'', JNumber 2)])
   \<and> parseCharByChar JSON_parse ''X'' ''X; X = {"abc': 1, 'd": 2};'' ''vid''
     = Inl (youTubeDataUnparsable ''vid'')
   \<and> map_option (\<lambda>m. match_group m 1)
       (the (reference_RegExp (pattern_sources ''X'' ! 1)) ''X; X = {"abc': 1, 'd": 2};'')
     = Some (Some ''{"abc': 1, 'd": 2}'')
   \<and> JsVarParser_parse reference_RegExp JSON_parse ''X'' (''var '' @ ''X'' @ '' = '' @ ''{"abc': 1, 'd": 2}'' @ '';'') ''vid''
     = Inr (JObject [(map of_char ''abc': 1, 'd'', JNumber 2)])\<close>
  by code_simp


text \<open>
  Why the variable name must have no semicolon: with the name \<^verbatim>\<open>"};\<close> the
  scan succeeds on the first text; wrapped, the substring ends in
  \<^verbatim>\<open>var "}\<close>, which the semicolon completes to a second marker, the scan
  then stops short of the closing brace, and no pattern matches an object
  nested this deep.
\<close>

lemma rescan_semicolon_name:
  \<open>scan_object (CHR 0x22 # ''};'')
       (''var '' @ (CHR 0x22 # ''};'') @ '' = {"a":{"b":{"c":1}},"k":"var "}'')
     = Some ''{"a":{"b":{"c":1}},"k":"var "}''
   \<and> JSON_parse ''{"a":{"b":{"c":1}},"k":"var "}''
     = Some (JObject [(map of_char ''a'', JObject [(map of_char ''b'', JObject [(map of_char ''c'', JNumber 1)])]),
                      (map of_char ''k'', JString (map of_char ''var ''))])
   \<and> JsVarParser_parse reference_RegExp JSON_parse (CHR 0x22 # ''};'')
       (''var '' @ (CHR 0x22 # ''};'') @ '' = '' @ ''{"a":{"b":{"c":1}},"k":"var "}'' @ '';'') ''vid''
     = Inl (youTubeDataUnparsable ''vid'')\<close>
  by code_simp

section \<open>Properties of the decoder\<close>



text \<open>
  Claim C3, as the code has it.  The tag filter of the formatting mode removes
  no tag.  The elements it is to replace are selected before the loop, and the
  first of them is the \<^verbatim>\<open>html\<close> element of the document: when the library
  builds the document of \<^verbatim>\<open><div>...</div>\<close> as one \<^verbatim>\<open>html\<close> element, the
  filter replaces that element by the nodes its inner markup stands for, the
  elements selected with it are no longer part of the document, and the result
  is the inner markup of the first \<^verbatim>\<open>div\<close> of these nodes, whatever the tags
  in it.  The reference library builds every document so, and with it
  \<^verbatim>\<open><u>word</u>\<close>, \<^verbatim>\<open><div>word</div>\<close> and a \<^verbatim>\<open>font\<close> element come out
  as they went in, as \<^verbatim>\<open><b>word</b>\<close> does; a segment with
  \<^verbatim>\<open><u>word</u>\<close> gives a snippet with that text.
\<close>

theorem formatting_keeps_every_tag:
  \<open>(load_html L (''<div>'' @ txt @ ''</div>'') = [Element ''html'' attrs children] \<longrightarrow>
      processWithFormatting L self txt =
        (let rewritten = concat (map (replace_links L self) children);
             markup = (if render_html L rewritten \<noteq> [] then render_html L rewritten
                       else forest_text rewritten)
         in case first_div_html L (parse_content L markup) of None \<Rightarrow> [] | Some h \<Rightarrow> h))
   \<and> load_html reference_library (''<div>'' @ txt @ ''</div>'')
       = [Element ''html'' []
            [Element ''head'' [] [], Element ''body'' [] (lib_parse_content (''<div>'' @ txt @ ''</div>''))]]
   \<and> processWithFormatting reference_library (new_TranscriptParser True default_linkFormat)
        ''<u>word</u>'' = ''<u>word</u>''
   \<and> processWithFormatting reference_library (new_TranscriptParser True default_linkFormat)
        ''<div>word</div>'' = ''<div>word</div>''
   \<and> processWithFormatting reference_library (new_TranscriptParser True default_linkFormat)
        ''<font color="red"><u>one</u> <b>two</b></font>''
       = ''<font color="red"><u>one</u> <b>two</b></font>''
   \<and> processWithFormatting reference_library (new_TranscriptParser True default_linkFormat)
        ''<b>word</b>'' = ''<b>word</b>''
   \<and> TranscriptParser_parse reference_library (new_TranscriptParser True default_linkFormat)
        ''<transcript><text start="0" dur="1"><u>word</u></text></transcript>''
      = Inr [\<lparr>text = ''<u>word</u>'', start = Finite 0, duration = Finite 1\<rparr>]\<close>
proof -
  have not_kept: \<open>\<not> kept_tag ''html''\<close>
    by (simp add: kept_tag_def FORMATTING_TAGS_def)
  have 1: "load_html L (''<div>'' @ txt @ ''</div>'') = [Element ''html'' attrs children] \<longrightarrow>
      processWithFormatting L self txt =
        (let rewritten = concat (map (replace_links L self) children);
             markup = (if render_html L rewritten \<noteq> [] then render_html L rewritten
                       else forest_text rewritten)
         in case first_div_html L (parse_content L markup) of None \<Rightarrow> [] | Some h \<Rightarrow> h)"
    using not_kept by (simp add: processWithFormatting_def Let_def forest_text_def)
  have 2: "load_html reference_library (''<div>'' @ txt @ ''</div>'')
       = [Element ''html'' []
            [Element ''head'' [] [], Element ''body'' [] (lib_parse_content (''<div>'' @ txt @ ''</div>''))]]"
    by (simp add: reference_library_def lib_load_html_def)
  have 3: \<open>processWithFormatting reference_library (new_TranscriptParser True default_linkFormat)
        ''<u>word</u>'' = ''<u>word</u>''\<close>
    by code_simp
  have 4: \<open>processWithFormatting reference_library (new_TranscriptParser True default_linkFormat)
        ''<div>word</div>'' = ''<div>word</div>''\<close>
    by code_simp
  have 5: \<open>processWithFormatting reference_library (new_TranscriptParser True default_linkFormat)
        ''<font color="red"><u>one</u> <b>two</b></font>''
       = ''<font color="red"><u>one</u> <b>two</b></font>''\<close>
    by code_simp
  have 6: \<open>processWithFormatting reference_library (new_TranscriptParser True default_linkFormat)
        ''<b>word</b>'' = ''<b>word</b>''\<close>
    by code_simp
  have 7: \<open>TranscriptParser_parse reference_library (new_TranscriptParser True default_linkFormat)
        ''<transcript><text start="0" dur="1"><u>word</u></text></transcript>''
      = Inr [\<lparr>text = ''<u>word</u>'', start = Finite 0, duration = Finite 1\<rparr>]\<close>
    by code_simp
  show ?thesis using 1 2 3 4 5 6 7 by blast
qed

text \<open>
  The document of \<^verbatim>\<open><u>word</u>\<close>: its \<^verbatim>\<open>html\<close> element is replaced by the
  nodes of \<^verbatim>\<open><head></head><body><div><u>word</u></div></body>\<close>, and the
  result is not \<^verbatim>\<open>word\<close>.
\<close>

theorem formatting_keeps_every_tag_witness:
  \<open>load_html reference_library (''<div>'' @ ''<u>word</u>'' @ ''</div>'')
     = [Element ''html'' []
          [Element ''head'' [] [],
           Element ''body'' [] [Element ''div'' [] [Element ''u'' [] [TextNode ''word'']]]]]
   \<and> processWithFormatting reference_library (new_TranscriptParser True default_linkFormat)
        ''<u>word</u>''
     = (case first_div_html reference_library
               (parse_content reference_library ''<head></head><body><div><u>word</u></div></body>'') of
          None \<Rightarrow> [] | Some h \<Rightarrow> h)
   \<and> processWithFormatting reference_library (new_TranscriptParser True default_linkFormat)
        ''<u>word</u>'' \<noteq> ''word''\<close>
proof -
  let ?children = \<open>[Element ''head'' [] [],
           Element ''body'' [] [Element ''div'' [] [Element ''u'' [] [TextNode ''word'']]]]\<close>
  let ?self = \<open>new_TranscriptParser True default_linkFormat\<close>
  have 1: \<open>load_html reference_library (''<div>'' @ ''<u>word</u>'' @ ''</div>'')
     = [Element ''html'' [] ?children]\<close>
    by code_simp
  have 2: \<open>(let rewritten = concat (map (replace_links reference_library ?self) ?children);
               markup = (if render_html reference_library rewritten \<noteq> []
                         then render_html reference_library rewritten
                         else forest_text rewritten)
           in markup) = ''<head></head><body><div><u>word</u></div></body>''\<close>
    by code_simp
  have 3: \<open>(case first_div_html reference_library
               (parse_content reference_library ''<head></head><body><div><u>word</u></div></body>'') of
          None \<Rightarrow> [] | Some h \<Rightarrow> h) = ''<u>word</u>''\<close>
    by code_simp
  from formatting_keeps_every_tag[of reference_library \<open>''<u>word</u>''\<close> "[]" ?children ?self] 1
  have \<open>processWithFormatting reference_library ?self ''<u>word</u>''
     = (let rewritten = concat (map (replace_links reference_library ?self) ?children);
             markup = (if render_html reference_library rewritten \<noteq> []
                       then render_html reference_library rewritten
                       else forest_text rewritten)
         in case first_div_html reference_library (parse_content reference_library markup) of
              None \<Rightarrow> [] | Some h \<Rightarrow> h)\<close>
    by blast
  with 2 have 4: \<open>processWithFormatting reference_library ?self ''<u>word</u>''
     = (case first_div_html reference_library
               (parse_content reference_library ''<head></head><body><div><u>word</u></div></body>'') of
          None \<Rightarrow> [] | Some h \<Rightarrow> h)\<close>
    by (simp add: Let_def)
  with 3 have \<open>processWithFormatting reference_library ?self ''<u>word</u>'' \<noteq> ''word''\<close>
    by simp
  with 1 4 show ?thesis by blast
qed

text \<open>
  Claim C4.  When the text lacks \<^verbatim>\<open><transcript\<close> or \<^verbatim>\<open></transcript>\<close>, or
  the opening and closing segment tags differ in number, parsing fails with the
  parse-failure message: the result is the error, and no snippet list.
\<close>

theorem precheck_failure:
  "\<not> str_includes rawData ''<transcript'' \<or> \<not> str_includes rawData ''</transcript>''
     \<or> count_matches open_tag_pattern rawData \<noteq> count_matches close_tag_pattern rawData
   \<Longrightarrow> \<exists>message. TranscriptParser_parse L self rawData
                    = Inl (''Failed to parse transcript XML: '' @ message)"
  by (auto simp: TranscriptParser_parse_def failed_def Let_def)

text \<open>Two opening segment tags and one closing one: the counts differ, and parsing fails.\<close>

theorem precheck_failure_witness:
  \<open>count_matches open_tag_pattern
       ''<transcript><text start="0" dur="1">a<text start="1" dur="1">b</text></transcript>'' = 2
   \<and> count_matches close_tag_pattern
       ''<transcript><text start="0" dur="1">a<text start="1" dur="1">b</text></transcript>'' = 1
   \<and> (\<exists>message. TranscriptParser_parse reference_library (new_TranscriptParser False default_linkFormat)
         ''<transcript><text start="0" dur="1">a<text start="1" dur="1">b</text></transcript>''
        = Inl (''Failed to parse transcript XML: '' @ message))\<close>
proof -
  have 1: \<open>count_matches open_tag_pattern
       ''<transcript><text start="0" dur="1">a<text start="1" dur="1">b</text></transcript>'' = 2
   \<and> count_matches close_tag_pattern
       ''<transcript><text start="0" dur="1">a<text start="1" dur="1">b</text></transcript>'' = 1\<close>
    by code_simp
  then have 2: \<open>count_matches open_tag_pattern
       ''<transcript><text start="0" dur="1">a<text start="1" dur="1">b</text></transcript>''
     \<noteq> count_matches close_tag_pattern
       ''<transcript><text start="0" dur="1">a<text start="1" dur="1">b</text></transcript>''\<close>
    by simp
  from precheck_failure[of _ reference_library "new_TranscriptParser False default_linkFormat"] 1 2
  show ?thesis by blast
qed

text \<open>
  Claim C6.  Every snippet of a successful parse has a text that is not empty,
  has no two white space characters in a row and none at its ends, and whose
  only white space character is the space.  The snippets are those of the
  segments in document order, at most one per segment, and none for a segment
  whose text is empty after the clean-up, which is the last step of every
  segment's text.
\<close>

theorem snippet_invariant:
  assumes "TranscriptParser_parse L self rawData = Inr snippets"
  shows "(\<forall>sn \<in> set snippets.
            text sn \<noteq> [] \<and> \<not> ws_run (text sn)
            \<and> \<not> is_space (hd (text sn)) \<and> \<not> is_space (last (text sn))
            \<and> (\<forall>c \<in> set (text sn). is_space c \<longrightarrow> c = CHR '' ''))
       \<and> snippets = concat (map (segment_snippets L self) (select ''text'' (load_xml L rawData)))
       \<and> (\<forall>el. length (segment_snippets L self el) \<le> 1)
       \<and> (\<forall>el. segment_text L self el = [] \<longrightarrow> segment_snippets L self el = [])
       \<and> (\<forall>el. \<exists>t. segment_text L self el = clean_whitespace t)"
proof -
  have seg: "sn \<in> set (segment_snippets L self el) \<Longrightarrow>
       text sn \<noteq> [] \<and> (\<exists>t. text sn = clean_whitespace t)" for sn el
    by (auto simp: segment_snippets_def segment_text_def Let_def split: if_splits)
  have "text sn \<noteq> [] \<and> \<not> ws_run (text sn)
            \<and> \<not> is_space (hd (text sn)) \<and> \<not> is_space (last (text sn))
            \<and> (\<forall>c \<in> set (text sn). is_space c \<longrightarrow> c = CHR '' '')"
    if "sn \<in> set snippets" for sn
  proof -
    from that assms obtain el where "sn \<in> set (segment_snippets L self el)"
      by (auto simp: parse_Inr)
    from seg[OF this] obtain t where t: "text sn \<noteq> []" "text sn = clean_whitespace t" by blast
    with clean_whitespace_props[of t] show ?thesis by simp
  qed
  moreover have "length (segment_snippets L self el) \<le> 1" for el
    by (simp add: segment_snippets_def Let_def)
  moreover have "segment_text L self el = [] \<Longrightarrow> segment_snippets L self el = []" for el
    by (simp add: segment_snippets_def Let_def)
  moreover have "\<exists>t. segment_text L self el = clean_whitespace t" for el
    by (auto simp: segment_text_def Let_def)
  ultimately show ?thesis using assms by (auto simp: parse_Inr)
qed

text \<open>
  A document with a padded segment and a blank one: one snippet, with the
  single-spaced text.
\<close>

theorem snippet_invariant_witness:
  \<open>TranscriptParser_parse reference_library (new_TranscriptParser False default_linkFormat)
      ''<transcript><text start="0" dur="1">  a   b </text><text start="1" dur="1"> </text></transcript>''
     = Inr [\<lparr>text = ''a b'', start = Finite 0, duration = Finite 1\<rparr>]
   \<and> \<not> ws_run ''a b'' \<and> \<not> is_space (hd ''a b'') \<and> \<not> is_space (last ''a b'')\<close>
proof -
  have 1: \<open>TranscriptParser_parse reference_library (new_TranscriptParser False default_linkFormat)
      ''<transcript><text start="0" dur="1">  a   b </text><text start="1" dur="1"> </text></transcript>''
     = Inr [\<lparr>text = ''a b'', start = Finite 0, duration = Finite 1\<rparr>]\<close>
    by code_simp
  from snippet_invariant[OF 1] have
    \<open>\<not> ws_run ''a b'' \<and> \<not> is_space (hd ''a b'') \<and> \<not> is_space (last ''a b'')\<close>
    by simp
  with 1 show ?thesis by blast
qed


text \<open>
  Claim C7, as the code has it.  \<^verbatim>\<open>withConfig\<close> fails, for either value of
  \<^verbatim>\<open>preserveFormatting\<close>, exactly when the link format lacks \<^verbatim>\<open>{text}\<close> or
  \<^verbatim>\<open>{url}\<close>, and returns the parser with the two settings otherwise.
\<close>

theorem withConfig_validation:
  "(withConfig pf lf = Inl ''Link format must contain {text} and {url} placeholders''
      \<longleftrightarrow> \<not> str_includes lf ''{text}'' \<or> \<not> str_includes lf ''{url}'')
   \<and> (withConfig pf lf = Inr \<lparr>preserveFormatting = pf, linkFormat = lf\<rparr>
      \<longleftrightarrow> str_includes lf ''{text}'' \<and> str_includes lf ''{url}'')"
  by (auto simp: withConfig_def new_TranscriptParser_def)

text \<open>A format without placeholders is refused, the Markdown format is accepted.\<close>

theorem withConfig_validation_witness:
  \<open>\<not> str_includes ''invalid format'' ''{text}''
   \<and> withConfig True ''invalid format'' = Inl ''Link format must contain {text} and {url} placeholders''
   \<and> str_includes ''[{text}]({url})'' ''{text}'' \<and> str_includes ''[{text}]({url})'' ''{url}''
   \<and> withConfig True ''[{text}]({url})'' = Inr \<lparr>preserveFormatting = True, linkFormat = ''[{text}]({url})''\<rparr>\<close>
proof -
  have 1: \<open>\<not> str_includes ''invalid format'' ''{text}''\<close> by code_simp
  have 2: \<open>str_includes ''[{text}]({url})'' ''{text}'' \<and> str_includes ''[{text}]({url})'' ''{url}''\<close> by code_simp
  from withConfig_validation[of True \<open>''invalid format''\<close>] withConfig_validation[of True \<open>''[{text}]({url})''\<close>] 1 2
  show ?thesis by blast
qed


text \<open>
  Claim C7 fails for the constructor: it takes any link format and checks
  nothing.
\<close>

theorem constructor_counterexample:
  \<open>new_TranscriptParser True ''invalid format'' = \<lparr>preserveFormatting = True, linkFormat = ''invalid format''\<rparr>
   \<and> \<not> str_includes ''invalid format'' ''{text}'' \<and> \<not> str_includes ''invalid format'' ''{url}''\<close>
  by code_simp


text \<open>
  The anchors of the specification's examples, in the plain mode: the default
  link format, a Markdown format, an anchor without \<^verbatim>\<open>href\<close>, and a tag that
  is not an anchor.
\<close>

lemma link_format_examples:
  \<open>htmlToPlainText reference_library (new_TranscriptParser False default_linkFormat)
        ''<a href="https://x.test">t</a>'' = ''t (https://x.test)''
   \<and> htmlToPlainText reference_library (new_TranscriptParser False ''[{text}]({url})'')
        ''<a href="https://x.test">t</a>'' = ''[t](https://x.test)''
   \<and> htmlToPlainText reference_library (new_TranscriptParser False default_linkFormat)
        ''a <a>bad link</a> and <i>more</i>'' = ''a bad link and more''\<close>
  by code_simp

text \<open>
  Claim C8 at an anchor whose text is \<^verbatim>\<open>$$\<close>.  The replacement string of
  \<^verbatim>\<open>replace\<close> reads \<^verbatim>\<open>$$\<close> as one dollar sign, so the default link format is
  filled in with \<^verbatim>\<open>$\<close> where the anchor's text is \<^verbatim>\<open>$$\<close>, and the plain mode
  renders the segment so.
\<close>

theorem link_text_dollar:
  \<open>replace (replace default_linkFormat ''{text}'' ''$$'') ''{url}'' ''https://x.test''
     = ''$ (https://x.test)''
   \<and> htmlToPlainText reference_library (new_TranscriptParser False default_linkFormat)
        ''<a href="https://x.test">$$</a>'' = ''$ (https://x.test)''
   \<and> TranscriptParser_parse reference_library (new_TranscriptParser False default_linkFormat)
        ''<transcript><text start="0" dur="1"><a href="https://x.test">$$</a></text></transcript>''
      = Inr [\<lparr>text = ''$ (https://x.test)'', start = Finite 0, duration = Finite 1\<rparr>]\<close>
  by code_simp

text \<open>The rendering is not the link format with the anchor's text in it.\<close>

theorem link_text_dollar_witness:
  \<open>htmlToPlainText reference_library (new_TranscriptParser False default_linkFormat)
        ''<a href="https://x.test">$$</a>'' \<noteq> ''$$ (https://x.test)''\<close>
  using link_text_dollar by simp

text \<open>
  Claim C10.  A segment pushes nothing exactly when \<^verbatim>\<open>start\<close> or \<^verbatim>\<open>dur\<close> is
  absent or empty, or \<^verbatim>\<open>parseFloat\<close> of one of them is \<open>NaN\<close> (or its text is
  empty after the clean-up); otherwise it pushes one snippet with the two
  numbers \<^verbatim>\<open>parseFloat\<close> read.  \<^verbatim>\<open>parseFloat\<close> reads the numeric prefix: digits
  followed by something that cannot continue the number give the number of the
  digits; \<^verbatim>\<open>dur="1.5abc"\<close> gives the duration 1.5; and an empty \<^verbatim>\<open>start\<close>
  skips the segment as a missing one does.
\<close>

theorem skip_condition_exact:
  \<open>segment_snippets L self el =
     (if attr ''start'' el = None \<or> attr ''start'' el = Some []
         \<or> attr ''dur'' el = None \<or> attr ''dur'' el = Some []
         \<or> parseFloat (the (attr ''start'' el)) = NaN \<or> parseFloat (the (attr ''dur'' el)) = NaN
      then []
      else if segment_text L self el = [] then []
      else [\<lparr>text = segment_text L self el,
             start = parseFloat (the (attr ''start'' el)),
             duration = parseFloat (the (attr ''dur'' el))\<rparr>])
   \<and> (ds \<noteq> [] \<and> (\<forall>c \<in> set ds. is_digit c)
        \<and> (rest = [] \<or> (\<not> is_digit (hd rest) \<and> hd rest \<notin> {CHR ''.'', CHR ''e'', CHR ''E''}))
      \<longrightarrow> parseFloat (ds @ rest) = Finite (of_nat (digits_val ds)))
   \<and> parseFloat ''1.5abc'' = Finite (3/2)
   \<and> TranscriptParser_parse reference_library (new_TranscriptParser False default_linkFormat)
        ''<transcript><text start="2" dur="1.5abc">hi</text><text start="" dur="1">a</text><text dur="1">b</text></transcript>''
      = Inr [\<lparr>text = ''hi'', start = Finite 2, duration = Finite (3/2)\<rparr>]\<close>
proof -
  have 1: "segment_snippets L self el =
     (if attr ''start'' el = None \<or> attr ''start'' el = Some []
         \<or> attr ''dur'' el = None \<or> attr ''dur'' el = Some []
         \<or> parseFloat (the (attr ''start'' el)) = NaN \<or> parseFloat (the (attr ''dur'' el)) = NaN
      then []
      else if segment_text L self el = [] then []
      else [\<lparr>text = segment_text L self el,
             start = parseFloat (the (attr ''start'' el)),
             duration = parseFloat (the (attr ''dur'' el))\<rparr>])"
    by (auto simp: segment_snippets_def Let_def truthy_def isNaN_def split: option.splits)
  have 2: \<open>parseFloat ''1.5abc'' = Finite (3/2)\<close> by code_simp
  have 3: \<open>TranscriptParser_parse reference_library (new_TranscriptParser False default_linkFormat)
        ''<transcript><text start="2" dur="1.5abc">hi</text><text start="" dur="1">a</text><text dur="1">b</text></transcript>''
      = Inr [\<lparr>text = ''hi'', start = Finite 2, duration = Finite (3/2)\<rparr>]\<close>
    by code_simp
  have 4: "ds \<noteq> [] \<and> (\<forall>c \<in> set ds. is_digit c)
        \<and> (rest = [] \<or> (\<not> is_digit (hd rest) \<and> hd rest \<notin> {CHR ''.'', CHR ''e'', CHR ''E''}))
      \<longrightarrow> parseFloat (ds @ rest) = Finite (of_nat (digits_val ds))"
    using parseFloat_digits by blast
  show ?thesis using 1 2 3 4 by blast
qed

text \<open>The segment with \<^verbatim>\<open>dur="1.5abc"\<close>, on its own.\<close>

theorem skip_condition_exact_witness:
  \<open>segment_snippets reference_library (new_TranscriptParser False default_linkFormat)
       (Element ''text'' [(''start'', ''2''), (''dur'', ''1.5abc'')] [TextNode ''hi''])
     = [\<lparr>text = ''hi'', start = Finite 2, duration = Finite (3/2)\<rparr>]\<close>
proof -
  let ?el = \<open>Element ''text'' [(''start'', ''2''), (''dur'', ''1.5abc'')] [TextNode ''hi'']\<close>
  let ?P = "new_TranscriptParser False default_linkFormat"
  have 1: \<open>attr ''start'' ?el = Some ''2'' \<and> attr ''dur'' ?el = Some ''1.5abc''\<close>
    by (simp add: attr_def)
  have 2: \<open>parseFloat ''2'' = Finite 2 \<and> parseFloat ''1.5abc'' = Finite (3/2)\<close> by code_simp
  have 3: \<open>segment_text reference_library ?P ?el = ''hi''\<close> by code_simp
  from skip_condition_exact[of reference_library ?P ?el]
  have "segment_snippets reference_library ?P ?el =
     (if attr ''start'' ?el = None \<or> attr ''start'' ?el = Some []
         \<or> attr ''dur'' ?el = None \<or> attr ''dur'' ?el = Some []
         \<or> parseFloat (the (attr ''start'' ?el)) = NaN \<or> parseFloat (the (attr ''dur'' ?el)) = NaN
      then []
      else if segment_text reference_library ?P ?el = [] then []
      else [\<lparr>text = segment_text reference_library ?P ?el,
             start = parseFloat (the (attr ''start'' ?el)),
             duration = parseFloat (the (attr ''dur'' ?el))\<rparr>])"
    by blast
  then show ?thesis using 1 2 3 by simp
qed

end
